theory Spec2Isabelle
  imports Complex_Main "HOL-Library.AList"
begin

section \<open>Python strings\<close>

text \<open>
  A Python \<open>str\<close> is modelled as a \<open>string\<close> holding its UTF-8 bytes. On these,
  \<open>str.replace("_", " ")\<close> is the replacement of the byte of the underscore,
  \<open>str.strip()\<close> removes the encodings of the white space characters at both ends, and
  \<open>key in s\<close> for an ASCII key is the search for its bytes. \<open>str.lower()\<close> is modelled on
  the ASCII letters; a letter outside ASCII keeps its case here. The lowered label is only
  searched for the ASCII keys of the table, and no character outside ASCII lowers to a
  letter of \<open>healthy\<close> or to an underscore, so the keys found are those the code finds.
\<close>

definition py_replace_us :: "string \<Rightarrow> string" where
  \<comment> \<open>\<open>s.replace("_", " ")\<close>\<close>
  "py_replace_us s = map (\<lambda>c. if c = CHR ''_'' then CHR '' '' else c) s"

definition whitespace :: "string list" where
  \<comment> \<open>The characters \<open>str.isspace\<close> accepts, each as its UTF-8 bytes: U+0009..U+000D,
      U+001C..U+0020, U+0085, U+00A0, U+1680, U+2000..U+200A, U+2028, U+2029, U+202F,
      U+205F, U+3000.\<close>
  "whitespace =
     [[CHR 0x09], [CHR 0x0A], [CHR 0x0B], [CHR 0x0C], [CHR 0x0D],
      [CHR 0x1C], [CHR 0x1D], [CHR 0x1E], [CHR 0x1F], [CHR 0x20],
      [CHR 0xC2, CHR 0x85], [CHR 0xC2, CHR 0xA0],
      [CHR 0xE1, CHR 0x9A, CHR 0x80],
      [CHR 0xE2, CHR 0x80, CHR 0x80], [CHR 0xE2, CHR 0x80, CHR 0x81],
      [CHR 0xE2, CHR 0x80, CHR 0x82], [CHR 0xE2, CHR 0x80, CHR 0x83],
      [CHR 0xE2, CHR 0x80, CHR 0x84], [CHR 0xE2, CHR 0x80, CHR 0x85],
      [CHR 0xE2, CHR 0x80, CHR 0x86], [CHR 0xE2, CHR 0x80, CHR 0x87],
      [CHR 0xE2, CHR 0x80, CHR 0x88], [CHR 0xE2, CHR 0x80, CHR 0x89],
      [CHR 0xE2, CHR 0x80, CHR 0x8A],
      [CHR 0xE2, CHR 0x80, CHR 0xA8], [CHR 0xE2, CHR 0x80, CHR 0xA9],
      [CHR 0xE2, CHR 0x80, CHR 0xAF], [CHR 0xE2, CHR 0x81, CHR 0x9F],
      [CHR 0xE3, CHR 0x80, CHR 0x80]]"

fun strip_front :: "string list \<Rightarrow> string \<Rightarrow> string" where
  \<comment> \<open>Removes from the front of a string every leading run of one, two or three bytes
      that is in the list \<open>ws\<close>.\<close>
  "strip_front ws [] = []"
| "strip_front ws (a # s) =
     (if [a] \<in> set ws then strip_front ws s
      else case s of
        [] \<Rightarrow> [a]
      | b # t \<Rightarrow>
         (if [a, b] \<in> set ws then strip_front ws t
          else case t of
            [] \<Rightarrow> [a, b]
          | c # u \<Rightarrow> (if [a, b, c] \<in> set ws then strip_front ws u else a # b # c # u)))"

definition py_strip :: "string \<Rightarrow> string" where
  \<comment> \<open>\<open>s.strip()\<close>: the white space characters at the front are removed, then those at
      the end (the same scan on the reversed string, for the reversed byte sequences).\<close>
  "py_strip s = rev (strip_front (map rev whitespace) (rev (strip_front whitespace s)))"

definition lower_char :: "char \<Rightarrow> char" where
  "lower_char c =
     (let n = (of_char c :: nat) in if 65 \<le> n \<and> n \<le> 90 then char_of (n + 32) else c)"

definition py_lower :: "string \<Rightarrow> string" where
  \<comment> \<open>\<open>s.lower()\<close>\<close>
  "py_lower s = map lower_char s"

fun py_startswith :: "string \<Rightarrow> string \<Rightarrow> bool" where
  "py_startswith s [] = True"
| "py_startswith [] (k # ks) = False"
| "py_startswith (c # cs) (k # ks) = (c = k \<and> py_startswith cs ks)"

fun str_in :: "string \<Rightarrow> string \<Rightarrow> bool" where
  \<comment> \<open>\<open>key in s\<close> on two strings: \<open>key\<close> occurs in \<open>s\<close> as a contiguous run.\<close>
  "str_in k [] = (k = [])"
| "str_in k (c # cs) = (py_startswith (c # cs) k \<or> str_in k cs)"

section \<open>Formatting the confidence\<close>

text \<open>
  The confidence is a floating point number in the source. It is modelled by a rational
  number, and \<open>confidence * 100\<close> is the exact product; the source rounds the product to
  the floating point format before it prints it. The two agree where the product needs
  no rounding, as for 0.93, whose product is 93.0. \<open>fmt_2f\<close> is the format
  specification \<open>:.2f\<close> on that number: two decimal places, ties rounded to the even
  neighbour, the sign kept. Infinities, NaN and the negative zero are not modelled. No
  property below depends on the confidence, except the text \<open>93.00%\<close> of one report.
\<close>

definition round_half_even :: "rat \<Rightarrow> int" where
  "round_half_even x =
     (let f = \<lfloor>x\<rfloor>; d = x - of_int f
      in if d < 1 / 2 then f else if 1 / 2 < d then f + 1 else if even f then f else f + 1)"

definition digit_char :: "nat \<Rightarrow> char" where
  "digit_char d = ''0123456789'' ! d"

function show_nat :: "nat \<Rightarrow> string" where
  "show_nat n = (if n < 10 then [digit_char n] else show_nat (n div 10) @ [digit_char (n mod 10)])"
  by pat_completeness auto
termination
  by (relation "measure id") auto

definition fmt_2f :: "rat \<Rightarrow> string" where
  "fmt_2f x =
     (let n = nat (round_half_even (\<bar>x\<bar> * 100))
      in (if x < 0 then ''-'' else '''') @ show_nat (n div 100) @ ''.''
         @ [digit_char (n mod 100 div 10), digit_char (n mod 10)])"

section \<open>KnowledgeBase\<close>

record advice =
  cause :: string
  symptoms :: string
  treatment :: string
  prevention :: string

definition ADVICE :: "(string \<times> advice) list" where
  \<comment> \<open>The class attribute \<open>ADVICE\<close>, in the order the dictionary literal lists its keys.\<close>
  "ADVICE =
    [(''bacterial_spot'',
        \<lparr>cause = ''Bacterial infection (Xanthomonas)'',
         symptoms = ''Small, water-soaked spots on leaves turning brown/black.'',
         treatment = ''Apply copper-based fungicides. Remove infected leaves.'',
         prevention = ''Avoid overhead watering. Rotate crops yearly.''\<rparr>),
     (''early_blight'',
        \<lparr>cause = ''Fungal infection (Alternaria solani)'',
         symptoms = ''Concentric rings (bullseye pattern) on lower leaves.'',
         treatment = ''Use bio-fungicides or copper sprays.'',
         prevention = ''Mulch soil to prevent spore splash. Stake plants.''\<rparr>),
     (''late_blight'',
        \<lparr>cause = ''Water mold (Phytophthora infestans)'',
         symptoms = ''Large, dark, greasy blotches. White fuzzy growth.'',
         treatment = ''Use fungicides with chlorothalonil/copper immediately.'',
         prevention = ''Destroy infected debris. Do not compost.''\<rparr>),
     (''powdery_mildew'',
        \<lparr>cause = ''Fungal spores'',
         symptoms = ''White, flour-like powder on leaf surfaces.'',
         treatment = ''Neem oil, sulfur sprays, or baking soda mixture.'',
         prevention = ''Ensure good air circulation.''\<rparr>),
     (''healthy'',
        \<lparr>cause = ''N/A'',
         symptoms = ''Leaves are vibrant green and structurally sound.'',
         treatment = ''Continue current care routine.'',
         prevention = ''Monitor regularly.''\<rparr>)]"

definition generic_advice :: advice where
  \<comment> \<open>The default of \<open>ADVICE.get(key_match, {...})\<close>.\<close>
  "generic_advice =
     \<lparr>cause = ''Unknown pathogen or environmental stress.'',
      symptoms = ''Visible discoloration or lesions.'',
      treatment = ''Isolate plant. Consult local agricultural extension.'',
      prevention = ''Maintain general hygiene.''\<rparr>"

text \<open>
  The local variables of \<open>generate_report\<close> (\<open>clean_label\<close>, \<open>is_healthy\<close>,
  \<open>key_match\<close>, \<open>info\<close>) are functions of the label.
\<close>

fun find_key :: "string list \<Rightarrow> string \<Rightarrow> string" where
  \<comment> \<open>The loop over the keys: \<open>key_match\<close> starts as \<open>"generic"\<close>, the first key found in
      the lowered label is kept and ends the loop.\<close>
  "find_key [] lbl = ''generic''"
| "find_key (key # keys) lbl = (if str_in key lbl then key else find_key keys lbl)"

definition clean_label :: "string \<Rightarrow> string" where
  "clean_label raw_label = py_strip (py_replace_us raw_label)"

definition is_healthy :: "string \<Rightarrow> bool" where
  "is_healthy raw_label = str_in ''healthy'' (py_lower (clean_label raw_label))"

definition key_match :: "string \<Rightarrow> string" where
  "key_match raw_label = find_key (map fst ADVICE) (py_lower (clean_label raw_label))"

definition info :: "string \<Rightarrow> advice" where
  "info raw_label =
     (case map_of ADVICE (key_match raw_label) of Some a \<Rightarrow> a | None \<Rightarrow> generic_advice)"

text \<open>The glyphs and emoji of the report, as their UTF-8 bytes.\<close>

definition glyph_check :: string where
  \<comment> \<open>U+2705\<close>
  "glyph_check = [CHR 0xE2, CHR 0x9C, CHR 0x85]"

definition glyph_warning :: string where
  \<comment> \<open>U+26A0 U+FE0F\<close>
  "glyph_warning = [CHR 0xE2, CHR 0x9A, CHR 0xA0, CHR 0xEF, CHR 0xB8, CHR 0x8F]"

definition glyph_microscope :: string where
  \<comment> \<open>U+1F52C\<close>
  "glyph_microscope = [CHR 0xF0, CHR 0x9F, CHR 0x94, CHR 0xAC]"

definition glyph_clipboard :: string where
  \<comment> \<open>U+1F4CB\<close>
  "glyph_clipboard = [CHR 0xF0, CHR 0x9F, CHR 0x93, CHR 0x8B]"

definition glyph_pill :: string where
  \<comment> \<open>U+1F48A\<close>
  "glyph_pill = [CHR 0xF0, CHR 0x9F, CHR 0x92, CHR 0x8A]"

definition glyph_shield :: string where
  \<comment> \<open>U+1F6E1 U+FE0F\<close>
  "glyph_shield = [CHR 0xF0, CHR 0x9F, CHR 0x9B, CHR 0xA1, CHR 0xEF, CHR 0xB8, CHR 0x8F]"

definition nl :: string where
  "nl = [CHR 0x0A]"

record report =
  title :: string
  status :: string
  details :: string

definition generate_report :: "string \<Rightarrow> rat \<Rightarrow> report" where
  "generate_report raw_label confidence =
     \<lparr>title = (if is_healthy raw_label then glyph_check else glyph_warning) @ '' ''
               @ clean_label raw_label,
      status = (if is_healthy raw_label then ''Healthy'' else ''Infected''),
      details =
        glyph_microscope @ '' **DIAGNOSIS:** '' @ clean_label raw_label @ nl
        @ ''Confidence: '' @ fmt_2f (confidence * 100) @ ''%'' @ nl @ nl
        @ glyph_clipboard @ '' **SYMPTOMS:**'' @ nl @ symptoms (info raw_label) @ nl @ nl
        @ glyph_pill @ '' **TREATMENT:**'' @ nl @ treatment (info raw_label) @ nl @ nl
        @ glyph_shield @ '' **PREVENTION:**'' @ nl @ prevention (info raw_label)\<rparr>"

section \<open>JSON documents and Python's dynamic operations on them\<close>

text \<open>
  What \<open>json.load\<close> returns and \<open>json.dump\<close> writes. A dictionary is an association list
  in insertion order, read by its first entry for a key and written with \<open>AList.update\<close>
  (an existing key keeps its place, a new key goes to the end), as a Python \<open>dict\<close> does.
  A number is an integer; no operation below looks into a number.
\<close>

datatype json =
    JNull
  | JBool bool
  | JNum int
  | JStr string
  | JList "json list"
  | JDict "(string \<times> json) list"

datatype py_error = KeyError | TypeError | AttributeError

fun py_in :: "string \<Rightarrow> json \<Rightarrow> py_error + bool" where
  \<comment> \<open>\<open>k in x\<close> for a string \<open>k\<close>: key membership in a dictionary, element membership in
      a list, substring test in a string, \<open>TypeError\<close> on anything else.\<close>
  "py_in k (JDict kvs) = Inr (k \<in> set (map fst kvs))"
| "py_in k (JList xs) = Inr (JStr k \<in> set xs)"
| "py_in k (JStr s) = Inr (str_in k s)"
| "py_in k JNull = Inl TypeError"
| "py_in k (JBool b) = Inl TypeError"
| "py_in k (JNum n) = Inl TypeError"

fun py_getitem :: "json \<Rightarrow> string \<Rightarrow> py_error + json" where
  \<comment> \<open>\<open>x[k]\<close> for a string \<open>k\<close>\<close>
  "py_getitem (JDict kvs) k = (case map_of kvs k of None \<Rightarrow> Inl KeyError | Some v \<Rightarrow> Inr v)"
| "py_getitem JNull k = Inl TypeError"
| "py_getitem (JBool b) k = Inl TypeError"
| "py_getitem (JNum n) k = Inl TypeError"
| "py_getitem (JStr s) k = Inl TypeError"
| "py_getitem (JList xs) k = Inl TypeError"

fun py_get :: "json \<Rightarrow> string \<Rightarrow> json \<Rightarrow> py_error + json" where
  \<comment> \<open>\<open>x.get(k, default)\<close>: only a dictionary has the method.\<close>
  "py_get (JDict kvs) k dflt = Inr (case map_of kvs k of None \<Rightarrow> dflt | Some v \<Rightarrow> v)"
| "py_get JNull k dflt = Inl AttributeError"
| "py_get (JBool b) k dflt = Inl AttributeError"
| "py_get (JNum n) k dflt = Inl AttributeError"
| "py_get (JStr s) k dflt = Inl AttributeError"
| "py_get (JList xs) k dflt = Inl AttributeError"

fun py_setitem :: "json \<Rightarrow> string \<Rightarrow> json \<Rightarrow> py_error + json" where
  \<comment> \<open>\<open>x[k] = v\<close> for a string \<open>k\<close>, returning the object after the assignment.\<close>
  "py_setitem (JDict kvs) k v = Inr (JDict (AList.update k v kvs))"
| "py_setitem JNull k v = Inl TypeError"
| "py_setitem (JBool b) k v = Inl TypeError"
| "py_setitem (JNum n) k v = Inl TypeError"
| "py_setitem (JStr s) k v = Inl TypeError"
| "py_setitem (JList xs) k v = Inl TypeError"

fun py_insert0 :: "json \<Rightarrow> json \<Rightarrow> py_error + json" where
  \<comment> \<open>\<open>x.insert(0, v)\<close>: only a list has the method.\<close>
  "py_insert0 (JList xs) v = Inr (JList (v # xs))"
| "py_insert0 JNull v = Inl AttributeError"
| "py_insert0 (JBool b) v = Inl AttributeError"
| "py_insert0 (JNum n) v = Inl AttributeError"
| "py_insert0 (JStr s) v = Inl AttributeError"
| "py_insert0 (JDict kvs) v = Inl AttributeError"

fun py_iter :: "json \<Rightarrow> py_error + json list" where
  \<comment> \<open>The elements \<open>for i in x\<close> visits: those of a list, the keys of a dictionary, the
      characters of a string; nothing else is iterable.\<close>
  "py_iter (JList xs) = Inr xs"
| "py_iter (JDict kvs) = Inr (map (\<lambda>kv. JStr (fst kv)) kvs)"
| "py_iter (JStr s) = Inr (map (\<lambda>c. JStr [c]) s)"
| "py_iter JNull = Inl TypeError"
| "py_iter (JBool b) = Inl TypeError"
| "py_iter (JNum n) = Inl TypeError"

section \<open>DataManager\<close>

text \<open>
  The state is the store file at \<open>DATA_FILE\<close>: absent, present with contents
  \<open>json.load\<close> rejects, or present with a document. \<open>writable\<close> says whether opening the
  file for writing succeeds; when it does not, \<open>_save\<close> prints the error and leaves the
  file as it was. An operation returns its result, or the exception it raises, together
  with the state it leaves.
\<close>

datatype store_file = Absent | Unparseable | Parsed json

record disk =
  contents :: store_file
  writable :: bool

definition empty_store :: json where
  \<comment> \<open>\<open>{"users": {}}\<close>\<close>
  "empty_store = JDict [(''users'', JDict [])]"

definition load :: "disk \<Rightarrow> json" where
  \<comment> \<open>\<open>_load\<close>: any failure to open or parse gives the empty store.\<close>
  "load d = (case contents d of Parsed j \<Rightarrow> j | Absent \<Rightarrow> empty_store | Unparseable \<Rightarrow> empty_store)"

definition save :: "json \<Rightarrow> disk \<Rightarrow> disk" where
  \<comment> \<open>\<open>_save\<close>: the exception of a failed write is caught and printed.\<close>
  "save data d = (if writable d then d\<lparr>contents := Parsed data\<rparr> else d)"

definition new_user :: "string \<Rightarrow> json" where
  \<comment> \<open>The record \<open>register_user\<close> stores, given the password's digest.\<close>
  "new_user h = JDict [(''password'', JStr h), (''history'', JList []), (''inventory'', JList [])]"

text \<open>
  \<open>_hash\<close> is the SHA-256 hex digest of the \<open>hashlib\<close> library. The operations take the
  digest function as their first argument \<open>H\<close>, so \<open>self._hash(p)\<close> is \<open>H p\<close>.
\<close>

definition register_user ::
  "(string \<Rightarrow> string) \<Rightarrow> string \<Rightarrow> string \<Rightarrow> disk \<Rightarrow> (py_error + bool \<times> string) \<times> disk" where
  "register_user H u p d =
     (let db = load d in
      case py_getitem db ''users'' of
        Inl e \<Rightarrow> (Inl e, d)
      | Inr users \<Rightarrow>
         (case py_in u users of
            Inl e \<Rightarrow> (Inl e, d)
          | Inr True \<Rightarrow> (Inr (False, ''Username taken''), d)
          | Inr False \<Rightarrow>
             (case py_setitem users u (new_user (H p)) of
                Inl e \<Rightarrow> (Inl e, d)
              | Inr users' \<Rightarrow>
                 (case py_setitem db ''users'' users' of
                    Inl e \<Rightarrow> (Inl e, d)
                  | Inr db' \<Rightarrow> (Inr (True, ''Success''), save db' d)))))"

definition verify_user :: "(string \<Rightarrow> string) \<Rightarrow> string \<Rightarrow> string \<Rightarrow> disk \<Rightarrow> py_error + bool" where
  "verify_user H u p d =
     (case py_get (load d) ''users'' (JDict []) of
        Inl e \<Rightarrow> Inl e
      | Inr users \<Rightarrow>
         (case py_in u users of
            Inl e \<Rightarrow> Inl e
          | Inr False \<Rightarrow> Inr False
          | Inr True \<Rightarrow>
             (case py_getitem users u of
                Inl e \<Rightarrow> Inl e
              | Inr r \<Rightarrow>
                 (case py_getitem r ''password'' of
                    Inl e \<Rightarrow> Inl e
                  | Inr pw \<Rightarrow> Inr (pw = JStr (H p))))))"

definition ensure_db :: "(string \<Rightarrow> string) \<Rightarrow> disk \<Rightarrow> (py_error + unit) \<times> disk" where
  \<comment> \<open>\<open>_ensure_db\<close>. Only the test \<open>"users" not in data\<close> can raise inside the \<open>try\<close>
      block; the bare \<open>except\<close> catches it. An exception of \<open>register_user\<close> in either
      branch outside the \<open>try\<close> block goes to the caller.\<close>
  "ensure_db H d =
     (let reset = (\<lambda>d. case register_user H ''admin'' ''admin'' (save empty_store d) of
                          (Inl e, d') \<Rightarrow> (Inl e, d')
                        | (Inr r, d') \<Rightarrow> (Inr (), d'))
      in if contents d = Absent then reset d
         else
          (let data = load d in
           case py_in ''users'' data of
             Inl e \<Rightarrow> reset d
           | Inr True \<Rightarrow> (Inr (), d)
           | Inr False \<Rightarrow>
              (case py_in ''admin'' data of
                 Inl e \<Rightarrow> reset d
               | Inr True \<Rightarrow> (Inr (), save (JDict [(''users'', data)]) d)
               | Inr False \<Rightarrow> (Inr (), save empty_store d))))"

definition new_item :: "string \<Rightarrow> string \<Rightarrow> json \<Rightarrow> json \<Rightarrow> json \<Rightarrow> json \<Rightarrow> json" where
  \<comment> \<open>The item \<open>add_item\<close> builds: \<open>uid\<close> is \<open>str(uuid.uuid4())\<close>, \<open>today\<close> is the current
      date as \<open>strftime("%Y-%m-%d")\<close> prints it.\<close>
  "new_item uid today name category qty notes =
     JDict [(''id'', JStr (take 8 uid)), (''name'', name), (''category'', category),
            (''qty'', qty), (''notes'', notes), (''date'', JStr today)]"

definition add_item ::
  "string \<Rightarrow> string \<Rightarrow> string \<Rightarrow> json \<Rightarrow> json \<Rightarrow> json \<Rightarrow> json \<Rightarrow> disk \<Rightarrow> (py_error + unit) \<times> disk" where
  \<comment> \<open>The nested list is changed in place and the whole document saved: the document
      saved is \<open>db\<close> with the new list at \<open>db["users"][user]["inventory"]\<close>.\<close>
  "add_item uid today user name category qty notes d =
     (let db = load d in
      case py_getitem db ''users'' of
        Inl e \<Rightarrow> (Inl e, d)
      | Inr users \<Rightarrow>
         (case py_in user users of
            Inl e \<Rightarrow> (Inl e, d)
          | Inr False \<Rightarrow> (Inr (), d)
          | Inr True \<Rightarrow>
             (case py_getitem users user of
                Inl e \<Rightarrow> (Inl e, d)
              | Inr r \<Rightarrow>
                 (case py_getitem r ''inventory'' of
                    Inl e \<Rightarrow> (Inl e, d)
                  | Inr inventory \<Rightarrow>
                     (case py_insert0 inventory (new_item uid today name category qty notes) of
                        Inl e \<Rightarrow> (Inl e, d)
                      | Inr inventory' \<Rightarrow>
                         (case py_setitem r ''inventory'' inventory' of
                            Inl e \<Rightarrow> (Inl e, d)
                          | Inr r' \<Rightarrow>
                             (case py_setitem users user r' of
                                Inl e \<Rightarrow> (Inl e, d)
                              | Inr users' \<Rightarrow>
                                 (case py_setitem db ''users'' users' of
                                    Inl e \<Rightarrow> (Inl e, d)
                                  | Inr db' \<Rightarrow> (Inr (), save db' d)))))))))"

definition get_inventory :: "string \<Rightarrow> disk \<Rightarrow> py_error + json" where
  "get_inventory user d =
     (case py_get (load d) ''users'' (JDict []) of
        Inl e \<Rightarrow> Inl e
      | Inr users \<Rightarrow>
         (case py_get users user (JDict []) of
            Inl e \<Rightarrow> Inl e
          | Inr r \<Rightarrow> py_get r ''inventory'' (JList [])))"

type_synonym stats = "(string \<times> int) list"

definition stats0 :: stats where
  "stats0 = [(''Plant'', 0), (''Seed'', 0), (''Tool'', 0), (''Other'', 0)]"

fun py_in_stats :: "json \<Rightarrow> stats \<Rightarrow> py_error + string option" where
  \<comment> \<open>\<open>cat in stats\<close>: a list or a dictionary is not hashable; a string is a key or not;
      no other value equals a string key. The key found is returned.\<close>
  "py_in_stats (JStr c) st = Inr (if c \<in> set (map fst st) then Some c else None)"
| "py_in_stats (JList xs) st = Inl TypeError"
| "py_in_stats (JDict kvs) st = Inl TypeError"
| "py_in_stats JNull st = Inr None"
| "py_in_stats (JBool b) st = Inr None"
| "py_in_stats (JNum n) st = Inr None"

definition incr :: "string \<Rightarrow> stats \<Rightarrow> py_error + stats" where
  \<comment> \<open>\<open>stats[k] += 1\<close>\<close>
  "incr k st = (case map_of st k of None \<Rightarrow> Inl KeyError | Some n \<Rightarrow> Inr (AList.update k (n + 1) st))"

definition count_item :: "json \<Rightarrow> stats \<Rightarrow> py_error + stats" where
  \<comment> \<open>The body of the loop of \<open>get_stats\<close>.\<close>
  "count_item i st =
     (case py_get i ''category'' (JStr ''Other'') of
        Inl e \<Rightarrow> Inl e
      | Inr cat \<Rightarrow>
         (case py_in_stats cat st of
            Inl e \<Rightarrow> Inl e
          | Inr (Some k) \<Rightarrow> incr k st
          | Inr None \<Rightarrow> incr ''Other'' st))"

fun stats_loop :: "json list \<Rightarrow> stats \<Rightarrow> py_error + stats" where
  "stats_loop [] st = Inr st"
| "stats_loop (i # rest) st =
     (case count_item i st of Inl e \<Rightarrow> Inl e | Inr st' \<Rightarrow> stats_loop rest st')"

definition get_stats :: "string \<Rightarrow> disk \<Rightarrow> py_error + stats" where
  "get_stats user d =
     (case get_inventory user d of
        Inl e \<Rightarrow> Inl e
      | Inr inventory \<Rightarrow>
         (case py_iter inventory of
            Inl e \<Rightarrow> Inl e
          | Inr items \<Rightarrow> stats_loop items stats0))"

section \<open>Notions of the specification\<close>

definition occurs :: "string \<Rightarrow> string \<Rightarrow> bool" where
  \<comment> \<open>\<open>k\<close> is a substring of \<open>s\<close>.\<close>
  "occurs k s = (\<exists>p t. s = p @ k @ t)"

definition occurs_ci :: "string \<Rightarrow> string \<Rightarrow> bool" where
  \<comment> \<open>\<open>k\<close> is a substring of \<open>s\<close> up to the case of the letters.\<close>
  "occurs_ci k s = (\<exists>p w t. s = p @ w @ t \<and> py_lower w = py_lower k)"

text \<open>
  The normalization and the match of the specification, written without the functions
  of the model: the white space characters by their code points and the UTF-8 encoding,
  the letters by the two alphabets.
\<close>

definition ws_codepoints :: "nat list" where
  \<comment> \<open>The code points of the white space characters of Unicode.\<close>
  "ws_codepoints =
     [0x09, 0x0A, 0x0B, 0x0C, 0x0D, 0x1C, 0x1D, 0x1E, 0x1F, 0x20, 0x85, 0xA0, 0x1680,
      0x2000, 0x2001, 0x2002, 0x2003, 0x2004, 0x2005, 0x2006, 0x2007, 0x2008, 0x2009, 0x200A,
      0x2028, 0x2029, 0x202F, 0x205F, 0x3000]"

definition utf8 :: "nat \<Rightarrow> string" where
  \<comment> \<open>The UTF-8 encoding of a code point.\<close>
  "utf8 n =
     (if n < 0x80 then [char_of n]
      else if n < 0x800 then [char_of (0xC0 + n div 64), char_of (0x80 + n mod 64)]
      else if n < 0x10000 then
        [char_of (0xE0 + n div 4096), char_of (0x80 + n div 64 mod 64), char_of (0x80 + n mod 64)]
      else
        [char_of (0xF0 + n div 262144), char_of (0x80 + n div 4096 mod 64),
         char_of (0x80 + n div 64 mod 64), char_of (0x80 + n mod 64)])"

definition spec_whitespace :: "string list" where
  "spec_whitespace = map utf8 ws_codepoints"

definition spec_blank :: "string \<Rightarrow> bool" where
  \<comment> \<open>A string of white space characters only.\<close>
  "spec_blank l = (\<exists>ps. set ps \<subseteq> set spec_whitespace \<and> l = concat ps)"

definition us_to_space :: "char \<Rightarrow> char \<Rightarrow> bool" where
  \<comment> \<open>\<open>b\<close> is \<open>a\<close> with the underscore replaced by the space.\<close>
  "us_to_space a b = (b = (if a = CHR ''_'' then CHR '' '' else a))"

definition spec_normalized :: "string \<Rightarrow> string \<Rightarrow> bool" where
  \<comment> \<open>\<open>n\<close> is the label \<open>raw\<close> normalized: every underscore replaced by a space, then the
      white space at both ends removed, so that \<open>n\<close> neither starts nor ends with a white
      space character.\<close>
  "spec_normalized raw n =
     (\<exists>m l r. list_all2 us_to_space raw m \<and> m = l @ n @ r \<and> spec_blank l \<and> spec_blank r
        \<and> \<not> (\<exists>w \<in> set spec_whitespace. \<exists>t. n = w @ t)
        \<and> \<not> (\<exists>w \<in> set spec_whitespace. \<exists>t. n = t @ w))"

definition spec_upper :: string where
  "spec_upper = ''ABCDEFGHIJKLMNOPQRSTUVWXYZ''"

definition spec_lower :: string where
  "spec_lower = ''abcdefghijklmnopqrstuvwxyz''"

definition same_letter :: "char \<Rightarrow> char \<Rightarrow> bool" where
  \<comment> \<open>Two characters are equal, or the capital and the small form of one letter.\<close>
  "same_letter c d =
     (c = d \<or> (c, d) \<in> set (zip spec_upper spec_lower) \<or> (d, c) \<in> set (zip spec_upper spec_lower))"

definition spec_occurs_ci :: "string \<Rightarrow> string \<Rightarrow> bool" where
  \<comment> \<open>\<open>k\<close> is a case-insensitive substring of \<open>s\<close>: a contiguous run of \<open>s\<close> equals \<open>k\<close>
      letter by letter up to case.\<close>
  "spec_occurs_ci k s = (\<exists>p w t. s = p @ w @ t \<and> list_all2 same_letter w k)"

definition spec_select :: "string \<Rightarrow> advice" where
  \<comment> \<open>The advisory as the specification words the selection, for a normalized label:
      the entry of the first key, in table order, that is a case-insensitive substring
      of the label; the generic advisory when no key is.\<close>
  "spec_select n =
     (case List.find (\<lambda>e. spec_occurs_ci (fst e) n) ADVICE of
        Some e \<Rightarrow> snd e
      | None \<Rightarrow>
         \<lparr>cause = ''Unknown pathogen or environmental stress.'',
          symptoms = ''Visible discoloration or lesions.'',
          treatment = ''Isolate plant. Consult local agricultural extension.'',
          prevention = ''Maintain general hygiene.''\<rparr>)"

definition users_of :: "disk \<Rightarrow> (string \<times> json) list option" where
  \<comment> \<open>The \<open>users\<close> mapping of the store as \<open>_load\<close> reads it, when the document is a
      dictionary whose \<open>users\<close> entry is a dictionary.\<close>
  "users_of d =
     (case load d of
        JDict kvs \<Rightarrow> (case map_of kvs ''users'' of Some (JDict us) \<Rightarrow> Some us | _ \<Rightarrow> None)
      | _ \<Rightarrow> None)"

definition category_of :: "json \<Rightarrow> json" where
  \<comment> \<open>The category \<open>get_stats\<close> reads from an inventory item that is a dictionary.\<close>
  "category_of i =
     (case i of
        JDict kvs \<Rightarrow> (case map_of kvs ''category'' of Some c \<Rightarrow> c | None \<Rightarrow> JStr ''Other'')
      | _ \<Rightarrow> JNull)"

definition countable_item :: "json \<Rightarrow> bool" where
  \<comment> \<open>An inventory item of the data model: a dictionary whose category is a scalar.\<close>
  "countable_item i =
     (case i of
        JDict kvs \<Rightarrow> (case category_of i of JList xs \<Rightarrow> False | JDict m \<Rightarrow> False | _ \<Rightarrow> True)
      | _ \<Rightarrow> False)"

definition count_where :: "(json \<Rightarrow> bool) \<Rightarrow> json list \<Rightarrow> int" where
  "count_where P items = int (length (filter P items))"

definition spec_wrap_legacy :: "json \<Rightarrow> json" where
  \<comment> \<open>The repair of a legacy document as the specification words it: the document
      wrapped under a synthetic \<open>admin\<close> entry of the \<open>users\<close> mapping.\<close>
  "spec_wrap_legacy data = JDict [(''users'', JDict [(''admin'', data)])]"

definition demo_digest :: "string \<Rightarrow> string" where
  \<comment> \<open>A stand-in for the digest function in the evaluations at concrete inputs.\<close>
  "demo_digest msg = ''sha256:'' @ msg"

definition legacy_doc :: json where
  \<comment> \<open>A flat legacy document: user names at the top level, \<open>admin\<close> among them.\<close>
  "legacy_doc =
     JDict [(''admin'', new_user ''8c6976e5''), (''bob'', new_user ''81b637d8'')]"

text \<open>Concrete stores for the evaluations.\<close>

definition fresh_disk :: disk where
  \<comment> \<open>A writable file holding \<open>{"users": {}}\<close>.\<close>
  "fresh_disk = \<lparr>contents = Parsed empty_store, writable = True\<rparr>"

definition rose_item :: json where
  "rose_item =
     JDict [(''id'', JStr ''a1b2c3d4''), (''name'', JStr ''Rose''), (''category'', JStr ''Plant''),
            (''qty'', JStr ''3''), (''notes'', JStr ''bed 2''), (''date'', JStr ''2024-04-30'')]"

definition alice_disk :: disk where
  \<comment> \<open>A store with the user \<open>alice\<close>, who has one item.\<close>
  "alice_disk =
     \<lparr>contents = Parsed (JDict [(''users'', JDict [(''alice'',
          JDict [(''password'', JStr ''sha256:x''), (''history'', JList []),
                 (''inventory'', JList [rose_item])])])]),
      writable = True\<rparr>"

definition item_in :: "string \<Rightarrow> json" where
  \<comment> \<open>An item of the given category, as \<open>add_item\<close> builds it.\<close>
  "item_in c =
     new_item ''6f1d2a9c-0b7e-4c55-9d3e-2a1b4c5d6e7f'' ''2024-05-01'' (JStr ''supply'') (JStr c)
       (JStr ''1'') (JStr ''-'')"

definition four_items_disk :: disk where
  \<comment> \<open>A store whose user \<open>alice\<close> has one item of each category the dialog offers.\<close>
  "four_items_disk =
     \<lparr>contents = Parsed (JDict [(''users'', JDict [(''alice'',
          JDict [(''password'', JStr ''sha256:x''), (''history'', JList []),
                 (''inventory'', JList [item_in ''Plant'', item_in ''Seed'', item_in ''Tool'',
                                        item_in ''Fertilizer''])])])]),
      writable = True\<rparr>"

definition bob_only_doc :: "(string \<times> json) list" where
  \<comment> \<open>A document with neither a \<open>users\<close> nor an \<open>admin\<close> key.\<close>
  "bob_only_doc = [(''bob'', new_user ''81b637d8'')]"

section \<open>Properties of the string functions\<close>

lemma py_startswith_iff: "py_startswith s k \<longleftrightarrow> (\<exists>t. s = k @ t)"
  by (induction s k rule: py_startswith.induct) auto

lemma str_in_iff: "str_in k s \<longleftrightarrow> occurs k s"
proof (induction s)
  case Nil
  show ?case by (auto simp: occurs_def)
next
  case (Cons c cs)
  have "occurs k (c # cs) \<longleftrightarrow> (\<exists>t. c # cs = k @ t) \<or> occurs k cs"
    unfolding occurs_def
  proof
    assume "\<exists>p t. c # cs = p @ k @ t"
    then obtain p t where e: "c # cs = p @ k @ t" by blast
    show "(\<exists>t. c # cs = k @ t) \<or> (\<exists>p t. cs = p @ k @ t)"
    proof (cases p)
      case Nil
      with e show ?thesis by auto
    next
      case (Cons a p')
      with e have "cs = p' @ k @ t" by simp
      then show ?thesis by blast
    qed
  next
    assume "(\<exists>t. c # cs = k @ t) \<or> (\<exists>p t. cs = p @ k @ t)"
    then show "\<exists>p t. c # cs = p @ k @ t"
    proof
      assume "\<exists>t. c # cs = k @ t"
      then obtain t where "c # cs = [] @ k @ t" by auto
      then show ?thesis by blast
    next
      assume "\<exists>p t. cs = p @ k @ t"
      then obtain p t where "c # cs = (c # p) @ k @ t" by auto
      then show ?thesis by blast
    qed
  qed
  with Cons show ?case by (simp add: py_startswith_iff)
qed

lemma occurs_lower_iff: "occurs (py_lower k) (py_lower s) \<longleftrightarrow> occurs_ci k s"
proof
  assume "occurs (py_lower k) (py_lower s)"
  then obtain p t where e: "map lower_char s = p @ map lower_char k @ t"
    by (auto simp: occurs_def py_lower_def)
  then obtain p' r where s1: "s = p' @ r" and r: "map lower_char r = map lower_char k @ t"
    using map_eq_append_conv[of lower_char s p "map lower_char k @ t"] by auto
  from r obtain w t' where "r = w @ t'" and "map lower_char w = map lower_char k"
    using map_eq_append_conv[of lower_char r "map lower_char k" t] by auto
  with s1 show "occurs_ci k s"
    by (auto simp: occurs_ci_def py_lower_def)
next
  assume "occurs_ci k s"
  then obtain p w t where "s = p @ w @ t" and "py_lower w = py_lower k"
    by (auto simp: occurs_ci_def)
  then have "py_lower s = py_lower p @ py_lower k @ py_lower t"
    by (simp add: py_lower_def)
  then show "occurs (py_lower k) (py_lower s)"
    unfolding occurs_def by blast
qed

lemma str_in_lower_ci: "py_lower k = k \<Longrightarrow> str_in k (py_lower s) \<longleftrightarrow> occurs_ci k s"
  using occurs_lower_iff[of k s] by (simp add: str_in_iff)



lemma split_nil: "\<exists>ps. set ps \<subseteq> set ws \<and> s = concat ps @ s"
  by (rule exI[of _ "[]"]) simp

lemma split_cons:
  assumes "w \<in> set ws" and "\<exists>ps. set ps \<subseteq> set ws \<and> s = concat ps @ r"
  shows "\<exists>ps. set ps \<subseteq> set ws \<and> w @ s = concat ps @ r"
proof -
  from assms(2) obtain ps where "set ps \<subseteq> set ws" and "s = concat ps @ r" by blast
  with assms(1) have "set (w # ps) \<subseteq> set ws \<and> w @ s = concat (w # ps) @ r" by simp
  then show ?thesis by blast
qed

lemma strip_front_split: "\<exists>ps. set ps \<subseteq> set ws \<and> s = concat ps @ strip_front ws s"
proof (induction ws s rule: strip_front.induct)
  case (1 ws)
  show ?case using split_nil[of ws "[]"] by simp
next
  case (2 ws a s)
  show ?case
  proof (cases "[a] \<in> set ws")
    case True
    with 2 have "\<exists>ps. set ps \<subseteq> set ws \<and> s = concat ps @ strip_front ws s" by simp
    from split_cons[OF True this] True show ?thesis by simp
  next
    case na: False
    show ?thesis
    proof (cases s)
      case Nil
      with na show ?thesis using split_nil[of ws "[a]"] by simp
    next
      case sb: (Cons b t)
      show ?thesis
      proof (cases "[a, b] \<in> set ws")
        case True
        with 2 na sb have "\<exists>ps. set ps \<subseteq> set ws \<and> t = concat ps @ strip_front ws t" by simp
        from split_cons[OF True this] na sb True show ?thesis by simp
      next
        case nab: False
        show ?thesis
        proof (cases t)
          case Nil
          with na nab sb show ?thesis using split_nil[of ws "[a, b]"] by simp
        next
          case tc: (Cons c u)
          show ?thesis
          proof (cases "[a, b, c] \<in> set ws")
            case True
            with 2 na nab sb tc
            have "\<exists>ps. set ps \<subseteq> set ws \<and> u = concat ps @ strip_front ws u" by simp
            from split_cons[OF True this] na nab sb tc True show ?thesis by simp
          next
            case False
            with na nab sb tc show ?thesis using split_nil[of ws "a # b # c # u"] by simp
          qed
        qed
      qed
    qed
  qed
qed

lemma short_prefix:
  assumes "length w = 1 \<or> length w = 2 \<or> length w = 3" and "x = w @ t"
  shows "w = take 1 x \<or> w = take 2 x \<or> w = take 3 x"
  using assms by auto

lemma strip_front_no_prefix:
  assumes "\<forall>w \<in> set ws. length w = 1 \<or> length w = 2 \<or> length w = 3" and "w \<in> set ws"
  shows "strip_front ws s \<noteq> w @ t"
  using assms
proof (induction ws s rule: strip_front.induct)
  case (1 ws)
  then show ?case by auto
next
  case (2 ws a s)
  note wm = \<open>w \<in> set ws\<close>
  from 2 have lw: "length w = 1 \<or> length w = 2 \<or> length w = 3" by blast
  show ?case
  proof (cases "[a] \<in> set ws")
    case True
    with 2 show ?thesis by simp
  next
    case na: False
    show ?thesis
    proof (cases s)
      case Nil
      show ?thesis
      proof
        assume "strip_front ws (a # s) = w @ t"
        with na Nil have "[a] = w @ t" by simp
        from short_prefix[OF lw this] have "w = [a]" by simp
        with na wm show False by simp
      qed
    next
      case sb: (Cons b t')
      show ?thesis
      proof (cases "[a, b] \<in> set ws")
        case True
        with 2 na sb show ?thesis by simp
      next
        case nab: False
        show ?thesis
        proof (cases t')
          case Nil
          show ?thesis
          proof
            assume "strip_front ws (a # s) = w @ t"
            with na nab sb Nil have "[a, b] = w @ t" by simp
            from short_prefix[OF lw this] have "w = [a] \<or> w = [a, b]" by simp
            with na nab wm show False by auto
          qed
        next
          case tc: (Cons c u)
          show ?thesis
          proof (cases "[a, b, c] \<in> set ws")
            case True
            with 2 na nab sb tc show ?thesis by simp
          next
            case nabc: False
            show ?thesis
            proof
              assume "strip_front ws (a # s) = w @ t"
              with na nab nabc sb tc have "a # b # c # u = w @ t" by simp
              from short_prefix[OF lw this] have "w = [a] \<or> w = [a, b] \<or> w = [a, b, c]" by simp
              with na nab nabc wm show False by auto
            qed
          qed
        qed
      qed
    qed
  qed
qed

lemma whitespace_lengths: "\<forall>w \<in> set whitespace. length w = 1 \<or> length w = 2 \<or> length w = 3"
  by (simp add: whitespace_def)

lemma rev_whitespace_lengths:
  "\<forall>w \<in> set (map rev whitespace). length w = 1 \<or> length w = 2 \<or> length w = 3"
  using whitespace_lengths by auto

lemma py_strip_split:
  "\<exists>ps qs. set ps \<subseteq> set whitespace \<and> set qs \<subseteq> set whitespace
      \<and> s = concat ps @ py_strip s @ concat qs"
proof -
  let ?s1 = "strip_front whitespace s"
  obtain ps where ps: "set ps \<subseteq> set whitespace" and s: "s = concat ps @ ?s1"
    using strip_front_split[of whitespace s] by blast
  obtain rs where rs: "set rs \<subseteq> set (map rev whitespace)"
    and r: "rev ?s1 = concat rs @ strip_front (map rev whitespace) (rev ?s1)"
    using strip_front_split[of "map rev whitespace" "rev ?s1"] by blast
  from r have "rev (rev ?s1) = rev (concat rs @ strip_front (map rev whitespace) (rev ?s1))"
    by simp
  then have s1: "?s1 = py_strip s @ concat (map rev (rev rs))"
    by (simp add: py_strip_def rev_concat)
  from rs have "set (map rev (rev rs)) \<subseteq> set whitespace" by auto
  with ps s s1 show ?thesis by metis
qed

lemma py_strip_no_prefix:
  assumes "w \<in> set whitespace"
  shows "py_strip s \<noteq> w @ t"
proof
  assume a: "py_strip s = w @ t"
  let ?s1 = "strip_front whitespace s"
  obtain rs where "rev ?s1 = concat rs @ strip_front (map rev whitespace) (rev ?s1)"
    using strip_front_split[of "map rev whitespace" "rev ?s1"] by blast
  then have "rev (rev ?s1) = rev (concat rs @ strip_front (map rev whitespace) (rev ?s1))"
    by simp
  then have "?s1 = py_strip s @ rev (concat rs)"
    by (simp add: py_strip_def)
  with a have "?s1 = w @ (t @ rev (concat rs))" by simp
  with strip_front_no_prefix[OF whitespace_lengths assms] show False by blast
qed

lemma py_strip_no_suffix:
  assumes "w \<in> set whitespace"
  shows "py_strip s \<noteq> t @ w"
proof
  assume "py_strip s = t @ w"
  then have "strip_front (map rev whitespace) (rev (strip_front whitespace s)) = rev w @ rev t"
    by (simp add: py_strip_def rev_swap)
  moreover from assms have "rev w \<in> set (map rev whitespace)" by simp
  ultimately show False
    using strip_front_no_prefix[OF rev_whitespace_lengths] by blast
qed


lemma spec_whitespace_eq: "spec_whitespace = whitespace"
  by (simp add: spec_whitespace_def whitespace_def ws_codepoints_def utf8_def char_of_eq_iff)

lemma clean_label_normalized: "spec_normalized raw (clean_label raw)"
proof -
  have 1: "list_all2 us_to_space raw (py_replace_us raw)"
    by (simp add: py_replace_us_def us_to_space_def list_all2_map2 list_all2_refl)
  obtain ps qs where ps: "set ps \<subseteq> set whitespace" and qs: "set qs \<subseteq> set whitespace"
    and 2: "py_replace_us raw = concat ps @ clean_label raw @ concat qs"
    using py_strip_split[of "py_replace_us raw"] unfolding clean_label_def by blast
  from ps have 3: "spec_blank (concat ps)"
    unfolding spec_blank_def spec_whitespace_eq by blast
  from qs have 4: "spec_blank (concat qs)"
    unfolding spec_blank_def spec_whitespace_eq by blast
  have 5: "\<not> (\<exists>w \<in> set spec_whitespace. \<exists>t. clean_label raw = w @ t)"
    unfolding spec_whitespace_eq clean_label_def using py_strip_no_prefix by blast
  have 6: "\<not> (\<exists>w \<in> set spec_whitespace. \<exists>t. clean_label raw = t @ w)"
    unfolding spec_whitespace_eq clean_label_def using py_strip_no_suffix by blast
  from 1 2 3 4 5 6 show ?thesis
    unfolding spec_normalized_def by blast
qed

text \<open>The capital letters are the bytes 65 to 90, and \<open>lower_char\<close> maps each to its small form.\<close>

lemma upper_range: "c \<in> set spec_upper \<longleftrightarrow> 65 \<le> (of_char c :: nat) \<and> (of_char c :: nat) \<le> 90"
proof
  assume "c \<in> set spec_upper"
  then show "65 \<le> (of_char c :: nat) \<and> (of_char c :: nat) \<le> 90"
    by (auto simp: spec_upper_def)
next
  assume a: "65 \<le> (of_char c :: nat) \<and> (of_char c :: nat) \<le> 90"
  have "\<forall>n \<in> set [65..<91]. (char_of (n::nat) :: char) \<in> set spec_upper"
    by (simp add: spec_upper_def char_of_eq_iff)
  moreover have "(of_char c :: nat) \<in> set [65..<91]"
    unfolding set_upt using a by auto
  ultimately have "(char_of (of_char c :: nat) :: char) \<in> set spec_upper" by blast
  then show "c \<in> set spec_upper" by simp
qed

lemma lower_char_upper: "(c, d) \<in> set (zip spec_upper spec_lower) \<Longrightarrow> lower_char c = d"
  by (auto simp: spec_upper_def spec_lower_def lower_char_def char_of_eq_iff)

lemma zip_upper_fst: "(c, d) \<in> set (zip spec_upper spec_lower) \<Longrightarrow> c \<in> set spec_upper"
  by (rule set_zip_leftD)

lemma upper_has_lower:
  assumes "c \<in> set spec_upper"
  shows "(c, lower_char c) \<in> set (zip spec_upper spec_lower)"
proof -
  have "length spec_upper = length spec_lower"
    by (simp add: spec_upper_def spec_lower_def)
  then obtain d where d: "(c, d) \<in> set (zip spec_upper spec_lower)"
    using assms by (rule in_set_impl_in_set_zip1)
  then have "lower_char c = d" by (rule lower_char_upper)
  with d show ?thesis by simp
qed

lemma lower_char_same_letter:
  assumes "d \<notin> set spec_upper"
  shows "lower_char c = d \<longleftrightarrow> same_letter c d"
proof (cases "c \<in> set spec_upper")
  case True
  have z: "(c, d) \<in> set (zip spec_upper spec_lower) \<longleftrightarrow> lower_char c = d"
  proof
    assume "(c, d) \<in> set (zip spec_upper spec_lower)"
    then show "lower_char c = d" by (rule lower_char_upper)
  next
    assume "lower_char c = d"
    with upper_has_lower[OF True] show "(c, d) \<in> set (zip spec_upper spec_lower)" by blast
  qed
  have n: "c \<noteq> d" using True assms by blast
  have m: "(d, c) \<notin> set (zip spec_upper spec_lower)" using assms zip_upper_fst by blast
  show ?thesis unfolding same_letter_def using z n m by blast
next
  case False
  then have l: "lower_char c = c" by (auto simp add: upper_range lower_char_def Let_def)
  have a: "(c, d) \<notin> set (zip spec_upper spec_lower)" using False zip_upper_fst by blast
  have b: "(d, c) \<notin> set (zip spec_upper spec_lower)" using assms zip_upper_fst by blast
  show ?thesis unfolding same_letter_def using l a b by metis
qed

lemma py_lower_same_letter:
  assumes "set k \<inter> set spec_upper = {}"
  shows "py_lower w = k \<longleftrightarrow> list_all2 same_letter w k"
  using assms
proof (induction w arbitrary: k)
  case Nil
  show ?case by (auto simp: py_lower_def)
next
  case (Cons c w)
  show ?case
  proof (cases k)
    case Nil
    then show ?thesis by (simp add: py_lower_def)
  next
    case kd: (Cons d k')
    with Cons.prems have d: "d \<notin> set spec_upper" and k': "set k' \<inter> set spec_upper = {}"
      by auto
    from Cons.IH[OF k'] lower_char_same_letter[OF d, of c] kd show ?thesis
      by (simp add: py_lower_def)
  qed
qed

lemma spec_occurs_ci_iff:
  assumes "set k \<inter> set spec_upper = {}" and "py_lower k = k"
  shows "spec_occurs_ci k s \<longleftrightarrow> occurs_ci k s"
  unfolding spec_occurs_ci_def occurs_ci_def assms(2)
  using py_lower_same_letter[OF assms(1)] by simp




section \<open>Properties of the report generator\<close>

lemma find_key_cases:
  "find_key ks lbl = ''generic'' \<or> (find_key ks lbl \<in> set ks \<and> str_in (find_key ks lbl) lbl)"
  by (induction ks) auto

lemma find_key_find:
  assumes "''generic'' \<notin> fst ` set tbl"
  shows "(case map_of tbl (find_key (map fst tbl) lbl) of Some a \<Rightarrow> a | None \<Rightarrow> g)
       = (case List.find (\<lambda>e. str_in (fst e) lbl) tbl of Some e \<Rightarrow> snd e | None \<Rightarrow> g)"
  using assms
proof (induction tbl)
  case Nil
  then show ?case by simp
next
  case (Cons e tbl)
  obtain k a where e: "e = (k, a)" by (cases e)
  show ?case
  proof (cases "str_in k lbl")
    case True
    then show ?thesis by (simp add: e)
  next
    case False
    have ne: "find_key (map fst tbl) lbl \<noteq> k"
      using find_key_cases[of "map fst tbl" lbl] False Cons.prems by (auto simp: e)
    from Cons have "(case map_of tbl (find_key (map fst tbl) lbl) of Some a \<Rightarrow> a | None \<Rightarrow> g)
       = (case List.find (\<lambda>e. str_in (fst e) lbl) tbl of Some e \<Rightarrow> snd e | None \<Rightarrow> g)"
      by simp
    with False ne show ?thesis by (simp add: e)
  qed
qed

lemma ADVICE_keys:
  "map fst ADVICE = [''bacterial_spot'', ''early_blight'', ''late_blight'', ''powdery_mildew'', ''healthy'']"
  by (simp add: ADVICE_def)

lemma ADVICE_keys_lower: "e \<in> set ADVICE \<Longrightarrow> py_lower (fst e) = fst e"
  by (auto simp: ADVICE_def py_lower_def lower_char_def)


lemma clean_lb: "clean_label ''Tomato___Late_blight'' = ''Tomato   Late blight''"
  by code_simp

lemma info_lb: "info ''Tomato___Late_blight'' = generic_advice"
  by code_simp

lemma healthy_lb: "is_healthy ''Tomato___Late_blight'' = False"
  by code_simp

lemma healthy_h: "is_healthy ''healthy'' = True"
  by code_simp

lemma fmt_93: "fmt_2f 93 = ''93.00''"
  by (simp add: fmt_2f_def round_half_even_def show_nat.simps[of 93] show_nat.simps[of 9] digit_char_def Let_def)

lemma details_lb: 
  "details (generate_report ''Tomato___Late_blight'' (93 / 100)) = 
     glyph_microscope @ '' **DIAGNOSIS:** Tomato   Late blight'' @ nl
        @ ''Confidence: 93.00%'' @ nl @ nl
        @ glyph_clipboard @ '' **SYMPTOMS:**'' @ nl @ ''Visible discoloration or lesions.'' @ nl @ nl
        @ glyph_pill @ '' **TREATMENT:**'' @ nl @ ''Isolate plant. Consult local agricultural extension.'' @ nl @ nl
        @ glyph_shield @ '' **PREVENTION:**'' @ nl @ ''Maintain general hygiene.''"
  by (simp add: generate_report_def clean_lb info_lb fmt_93 generic_advice_def)

text \<open>
  Claim C2. At the label \<open>Tomato___Late_blight\<close> with confidence 0.93 the status is
  \<open>Infected\<close>, the title contains \<open>Late blight\<close> and the details contain \<open>93.00%\<close>, but
  the advisory is the generic one: the details do not contain the late-blight treatment
  text. At the label \<open>healthy\<close> the status is \<open>Healthy\<close>.
\<close>

theorem generate_report_late_blight:
  "status (generate_report ''Tomato___Late_blight'' (93 / 100)) = ''Infected''
   \<and> str_in ''Late blight'' (title (generate_report ''Tomato___Late_blight'' (93 / 100)))
   \<and> str_in ''93.00%'' (details (generate_report ''Tomato___Late_blight'' (93 / 100)))
   \<and> treatment (info ''Tomato___Late_blight'') = ''Isolate plant. Consult local agricultural extension.''
   \<and> \<not> str_in ''Use fungicides with chlorothalonil/copper immediately.''
           (details (generate_report ''Tomato___Late_blight'' (93 / 100)))
   \<and> status (generate_report ''healthy'' (99 / 100)) = ''Healthy''"
proof -
  have 1: "status (generate_report ''Tomato___Late_blight'' (93 / 100)) = ''Infected''"
    by (simp add: generate_report_def healthy_lb)
  have 2: "str_in ''Late blight'' (title (generate_report ''Tomato___Late_blight'' (93 / 100)))"
    by (simp add: generate_report_def healthy_lb clean_lb glyph_warning_def)
  have 3: "str_in ''93.00%'' (details (generate_report ''Tomato___Late_blight'' (93 / 100)))"
    unfolding details_lb glyph_microscope_def glyph_clipboard_def glyph_pill_def glyph_shield_def nl_def
    by simp
  have 4: "treatment (info ''Tomato___Late_blight'') = ''Isolate plant. Consult local agricultural extension.''"
    by (simp add: info_lb generic_advice_def)
  have 5: "\<not> str_in ''Use fungicides with chlorothalonil/copper immediately.''
           (details (generate_report ''Tomato___Late_blight'' (93 / 100)))"
    unfolding details_lb glyph_microscope_def glyph_clipboard_def glyph_pill_def glyph_shield_def nl_def
    by simp
  have 6: "status (generate_report ''healthy'' (99 / 100)) = ''Healthy''"
    by (simp add: generate_report_def healthy_h)
  from 1 2 3 4 5 6 show ?thesis by blast
qed

lemma ADVICE_spec_keys:
  "e \<in> set ADVICE \<Longrightarrow> set (fst e) \<inter> set spec_upper = {} \<and> py_lower (fst e) = fst e"
  by (auto simp: ADVICE_def spec_upper_def py_lower_def lower_char_def)

lemma str_in_lower_spec:
  assumes "set k \<inter> set spec_upper = {}" and "py_lower k = k"
  shows "str_in k (py_lower s) \<longleftrightarrow> spec_occurs_ci k s"
  using str_in_lower_ci[OF assms(2), of s] spec_occurs_ci_iff[OF assms, of s] by simp

text \<open>
  Claim C3. The table lists its keys in the order bacterial_spot, early_blight,
  late_blight, powdery_mildew, healthy. For every label, the label \<open>generate_report\<close>
  searches is the label with every underscore replaced by a space and the white space at
  both ends removed, and the advisory it uses is the entry of the first key, in table
  order, that is a case-insensitive substring of that normalized label, and the generic
  advisory (unknown pathogen, generic symptoms, treatment and prevention) when no key is;
  the details embed its symptoms, treatment and prevention. So \<open>Tomato___HEALTHY\<close> gets
  the healthy entry, and a label with \<open>Early_blight\<close> between underscores and spaces
  gets the generic advisory.
\<close>

theorem advice_selection:
  "map fst ADVICE = [''bacterial_spot'', ''early_blight'', ''late_blight'', ''powdery_mildew'', ''healthy'']
   \<and> spec_normalized raw_label (clean_label raw_label)
   \<and> info raw_label = spec_select (clean_label raw_label)
   \<and> details (generate_report raw_label confidence) =
        glyph_microscope @ '' **DIAGNOSIS:** '' @ clean_label raw_label @ nl
        @ ''Confidence: '' @ fmt_2f (confidence * 100) @ ''%'' @ nl @ nl
        @ glyph_clipboard @ '' **SYMPTOMS:**'' @ nl
        @ symptoms (spec_select (clean_label raw_label)) @ nl @ nl
        @ glyph_pill @ '' **TREATMENT:**'' @ nl
        @ treatment (spec_select (clean_label raw_label)) @ nl @ nl
        @ glyph_shield @ '' **PREVENTION:**'' @ nl
        @ prevention (spec_select (clean_label raw_label))
   \<and> info ''Tomato___HEALTHY'' =
        \<lparr>cause = ''N/A'',
         symptoms = ''Leaves are vibrant green and structurally sound.'',
         treatment = ''Continue current care routine.'',
         prevention = ''Monitor regularly.''\<rparr>
   \<and> info '' _Potato_Early_blight_ '' =
        \<lparr>cause = ''Unknown pathogen or environmental stress.'',
         symptoms = ''Visible discoloration or lesions.'',
         treatment = ''Isolate plant. Consult local agricultural extension.'',
         prevention = ''Maintain general hygiene.''\<rparr>
   \<and> clean_label '' _Potato_Early_blight_ '' = ''Potato Early blight''"
proof -
  have g: "''generic'' \<notin> fst ` set ADVICE"
    by (simp add: ADVICE_def)
  have f: "List.find (\<lambda>e. str_in (fst e) (py_lower (clean_label raw_label))) ADVICE
         = List.find (\<lambda>e. spec_occurs_ci (fst e) (clean_label raw_label)) ADVICE"
    by (rule find_cong) (simp_all add: str_in_lower_spec ADVICE_spec_keys)
  have "info raw_label =
       (case List.find (\<lambda>e. str_in (fst e) (py_lower (clean_label raw_label))) ADVICE of
          Some e \<Rightarrow> snd e
        | None \<Rightarrow>
           \<lparr>cause = ''Unknown pathogen or environmental stress.'',
            symptoms = ''Visible discoloration or lesions.'',
            treatment = ''Isolate plant. Consult local agricultural extension.'',
            prevention = ''Maintain general hygiene.''\<rparr>)"
    unfolding info_def key_match_def generic_advice_def by (rule find_key_find[OF g])
  with f have i: "info raw_label = spec_select (clean_label raw_label)"
    by (simp add: spec_select_def)
  have d: "details (generate_report raw_label confidence) =
        glyph_microscope @ '' **DIAGNOSIS:** '' @ clean_label raw_label @ nl
        @ ''Confidence: '' @ fmt_2f (confidence * 100) @ ''%'' @ nl @ nl
        @ glyph_clipboard @ '' **SYMPTOMS:**'' @ nl @ symptoms (info raw_label) @ nl @ nl
        @ glyph_pill @ '' **TREATMENT:**'' @ nl @ treatment (info raw_label) @ nl @ nl
        @ glyph_shield @ '' **PREVENTION:**'' @ nl @ prevention (info raw_label)"
    by (simp add: generate_report_def)
  have u: "info ''Tomato___HEALTHY'' =
        \<lparr>cause = ''N/A'',
         symptoms = ''Leaves are vibrant green and structurally sound.'',
         treatment = ''Continue current care routine.'',
         prevention = ''Monitor regularly.''\<rparr>"
    by code_simp
  have e: "info '' _Potato_Early_blight_ '' =
        \<lparr>cause = ''Unknown pathogen or environmental stress.'',
         symptoms = ''Visible discoloration or lesions.'',
         treatment = ''Isolate plant. Consult local agricultural extension.'',
         prevention = ''Maintain general hygiene.''\<rparr>"
    by code_simp
  have k: "map fst ADVICE =
      [''bacterial_spot'', ''early_blight'', ''late_blight'', ''powdery_mildew'', ''healthy'']"
    by (simp add: ADVICE_def)
  have c: "clean_label '' _Potato_Early_blight_ '' = ''Potato Early blight''"
    by code_simp
  from k clean_label_normalized[of raw_label] i d u e c
  show ?thesis by simp
qed

text \<open>
  Claim C4. For every label and confidence, the label shown is the label with every
  underscore replaced by a space and the white space at both ends removed; the status is
  \<open>Healthy\<close> exactly when \<open>healthy\<close> is a case-insensitive substring of that normalized
  label, and \<open>Infected\<close> otherwise; the title is the check mark for \<open>Healthy\<close> and the
  warning sign for \<open>Infected\<close>, a space and the normalized label. So
  \<open>Tomato___HEALTHY\<close> is healthy, and a label with \<open>Early_blight\<close> between underscores
  and spaces is infected and shown trimmed.
\<close>

theorem status_healthy_iff:
  "spec_normalized raw_label (clean_label raw_label)
   \<and> (status (generate_report raw_label confidence) = ''Healthy''
        \<longleftrightarrow> spec_occurs_ci ''healthy'' (clean_label raw_label))
   \<and> status (generate_report raw_label confidence) =
       (if spec_occurs_ci ''healthy'' (clean_label raw_label) then ''Healthy'' else ''Infected'')
   \<and> title (generate_report raw_label confidence) =
       (if status (generate_report raw_label confidence) = ''Healthy''
        then [CHR 0xE2, CHR 0x9C, CHR 0x85]
        else [CHR 0xE2, CHR 0x9A, CHR 0xA0, CHR 0xEF, CHR 0xB8, CHR 0x8F])
       @ '' '' @ clean_label raw_label
   \<and> status (generate_report ''Tomato___HEALTHY'' confidence) = ''Healthy''
   \<and> title (generate_report ''Tomato___HEALTHY'' confidence) =
       [CHR 0xE2, CHR 0x9C, CHR 0x85] @ '' Tomato   HEALTHY''
   \<and> status (generate_report '' _Potato_Early_blight_ '' confidence) = ''Infected''
   \<and> title (generate_report '' _Potato_Early_blight_ '' confidence) =
       [CHR 0xE2, CHR 0x9A, CHR 0xA0, CHR 0xEF, CHR 0xB8, CHR 0x8F] @ '' Potato Early blight''
   \<and> clean_label ([CHR 0xC2, CHR 0xA0] @ ''Healthy_leaf'' @ [CHR 0xE3, CHR 0x80, CHR 0x80, CHR 0x0A])
       = ''Healthy leaf''"
proof -
  have k: "set ''healthy'' \<inter> set spec_upper = {}"
    by (simp add: spec_upper_def)
  have l: "py_lower ''healthy'' = ''healthy''"
    by (simp add: py_lower_def lower_char_def)
  have h: "is_healthy raw_label \<longleftrightarrow> spec_occurs_ci ''healthy'' (clean_label raw_label)"
    unfolding is_healthy_def by (rule str_in_lower_spec[OF k l])
  have 1: "status (generate_report raw_label confidence) =
       (if spec_occurs_ci ''healthy'' (clean_label raw_label) then ''Healthy'' else ''Infected'')"
    using h by (simp add: generate_report_def)
  have 2: "title (generate_report raw_label confidence) =
       (if status (generate_report raw_label confidence) = ''Healthy''
        then [CHR 0xE2, CHR 0x9C, CHR 0x85]
        else [CHR 0xE2, CHR 0x9A, CHR 0xA0, CHR 0xEF, CHR 0xB8, CHR 0x8F])
       @ '' '' @ clean_label raw_label"
    by (simp add: generate_report_def glyph_check_def glyph_warning_def)
  have hu: "is_healthy ''Tomato___HEALTHY'' = True"
    by code_simp
  have cu: "clean_label ''Tomato___HEALTHY'' = ''Tomato   HEALTHY''"
    by code_simp
  have hp: "is_healthy '' _Potato_Early_blight_ '' = False"
    by code_simp
  have cp: "clean_label '' _Potato_Early_blight_ '' = ''Potato Early blight''"
    by code_simp
  have 3: "status (generate_report ''Tomato___HEALTHY'' confidence) = ''Healthy''"
    by (simp add: generate_report_def hu)
  have 4: "title (generate_report ''Tomato___HEALTHY'' confidence) =
       [CHR 0xE2, CHR 0x9C, CHR 0x85] @ '' Tomato   HEALTHY''"
    by (simp add: generate_report_def hu cu glyph_check_def)
  have 5: "status (generate_report '' _Potato_Early_blight_ '' confidence) = ''Infected''"
    by (simp add: generate_report_def hp)
  have 6: "title (generate_report '' _Potato_Early_blight_ '' confidence) =
       [CHR 0xE2, CHR 0x9A, CHR 0xA0, CHR 0xEF, CHR 0xB8, CHR 0x8F] @ '' Potato Early blight''"
    by (simp add: generate_report_def hp cp glyph_warning_def)
  have 8: "clean_label ([CHR 0xC2, CHR 0xA0] @ ''Healthy_leaf'' @ [CHR 0xE3, CHR 0x80, CHR 0x80, CHR 0x0A])
       = ''Healthy leaf''"
    by code_simp
  from 1 have 7: "status (generate_report raw_label confidence) = ''Healthy''
        \<longleftrightarrow> spec_occurs_ci ''healthy'' (clean_label raw_label)"
    by simp
  from clean_label_normalized[of raw_label] 7 1 2 3 4 5 6 8 show ?thesis
    by blast
qed



section \<open>Properties of the store operations\<close>

lemma in_keys_iff: "k \<in> fst ` set kvs \<longleftrightarrow> map_of kvs k \<noteq> None"
  by (simp add: map_of_eq_None_iff)

lemma update_new: "k \<notin> fst ` set kvs \<Longrightarrow> AList.update k v kvs = kvs @ [(k, v)]"
  by (induction kvs) auto

lemma filter_new: "u \<notin> fst ` set us \<Longrightarrow> filter (\<lambda>e. fst e = u) (us @ [(u, v)]) = [(u, v)]"
  by (induction us) auto

lemma map_of_append_new: "k \<notin> fst ` set kvs \<Longrightarrow> map_of (kvs @ [(k, v)]) k = Some v"
  by (induction kvs) auto

lemma users_ofD:
  assumes "users_of d = Some us"
  obtains kvs where "load d = JDict kvs" and "map_of kvs ''users'' = Some (JDict us)"
  using assms unfolding users_of_def
  by (auto split: json.splits option.splits)

lemma users_of_save:
  "writable d \<Longrightarrow> users_of (save (JDict kvs) d) =
     (case map_of kvs ''users'' of Some (JDict us) \<Rightarrow> Some us | _ \<Rightarrow> None)"
  by (simp add: users_of_def save_def load_def)

lemma register_user_taken:
  assumes "users_of d = Some us" and "u \<in> fst ` set us"
  shows "register_user H u p d = (Inr (False, ''Username taken''), d)"
proof -
  from assms(1) obtain kvs where "load d = JDict kvs" and "map_of kvs ''users'' = Some (JDict us)"
    by (rule users_ofD)
  with assms(2) show ?thesis
    by (simp add: register_user_def)
qed

lemma register_user_new:
  assumes "users_of d = Some us" and "u \<notin> fst ` set us" and "load d = JDict kvs"
  shows "register_user H u p d =
           (Inr (True, ''Success''),
            save (JDict (AList.update ''users'' (JDict (us @ [(u, new_user (H p))])) kvs)) d)"
proof -
  from assms(1,3) have "map_of kvs ''users'' = Some (JDict us)"
    by (auto simp: users_of_def split: option.splits json.splits)
  with assms(2,3) show ?thesis
    by (simp add: register_user_def update_new)
qed

lemma verify_user_known:
  assumes "users_of d = Some us" and "map_of us u = Some (JDict r)" and "map_of r ''password'' = Some pw"
  shows "verify_user H u p d = Inr (pw = JStr (H p))"
proof -
  from assms(1) obtain kvs where "load d = JDict kvs" and "map_of kvs ''users'' = Some (JDict us)"
    by (rule users_ofD)
  moreover from assms(2) have "u \<in> fst ` set us" by (simp add: in_keys_iff)
  ultimately show ?thesis using assms(2,3)
    by (simp add: verify_user_def)
qed

lemma verify_user_unknown:
  assumes "users_of d = Some us" and "u \<notin> fst ` set us"
  shows "verify_user H u p d = Inr False"
proof -
  from assms(1) obtain kvs where "load d = JDict kvs" and "map_of kvs ''users'' = Some (JDict us)"
    by (rule users_ofD)
  with assms(2) show ?thesis
    by (simp add: verify_user_def)
qed

lemma verify_user_TrueD:
  assumes "verify_user H u p d = Inr True"
  shows "\<exists>us r. users_of d = Some us \<and> map_of us u = Some (JDict r)
                \<and> map_of r ''password'' = Some (JStr (H p))"
proof -
  from assms obtain users where g: "py_get (load d) ''users'' (JDict []) = Inr users"
    by (auto simp: verify_user_def split: sum.splits)
  from assms g have i: "py_in u users = Inr True"
    by (auto simp: verify_user_def split: sum.splits bool.splits)
  from assms g i obtain r where gi: "py_getitem users u = Inr r"
    by (auto simp: verify_user_def split: sum.splits)
  from assms g i gi have pw: "py_getitem r ''password'' = Inr (JStr (H p))"
    by (auto simp: verify_user_def split: sum.splits)
  from gi obtain us where us: "users = JDict us" and mu: "map_of us u = Some r"
    by (cases users) (auto split: option.splits)
  from pw obtain rk where rk: "r = JDict rk" and mp: "map_of rk ''password'' = Some (JStr (H p))"
    by (cases r) (auto split: option.splits)
  from g obtain kvs where l: "load d = JDict kvs"
    by (cases "load d") auto
  from g l us have "map_of kvs ''users'' = Some (JDict us)"
    using mu by (auto split: option.splits)
  with l have "users_of d = Some us" by (simp add: users_of_def)
  with mu rk mp show ?thesis by blast
qed

lemma get_inventory_known:
  assumes "users_of d = Some us" and "map_of us user = Some (JDict r)"
    and "map_of r ''inventory'' = Some v"
  shows "get_inventory user d = Inr v"
proof -
  from assms(1) obtain kvs where "load d = JDict kvs" and "map_of kvs ''users'' = Some (JDict us)"
    by (rule users_ofD)
  with assms(2,3) show ?thesis
    by (simp add: get_inventory_def)
qed

lemma count_item_countable:
  assumes "countable_item i"
  shows "count_item i [(''Plant'', a), (''Seed'', b), (''Tool'', c), (''Other'', e)] =
     Inr [(''Plant'', a + (if category_of i = JStr ''Plant'' then 1 else 0)),
          (''Seed'', b + (if category_of i = JStr ''Seed'' then 1 else 0)),
          (''Tool'', c + (if category_of i = JStr ''Tool'' then 1 else 0)),
          (''Other'', e + (if category_of i \<noteq> JStr ''Plant'' \<and> category_of i \<noteq> JStr ''Seed''
                               \<and> category_of i \<noteq> JStr ''Tool'' then 1 else 0))]"
proof -
  from assms obtain kvs where i: "i = JDict kvs"
    by (cases i) (auto simp: countable_item_def)
  show ?thesis
  proof (cases "category_of i")
    case (JStr s)
    with i show ?thesis
      by (auto simp: count_item_def category_of_def incr_def split: option.splits)
  next
    case (JList xs)
    with assms i show ?thesis by (simp add: countable_item_def)
  next
    case (JDict m)
    with assms i show ?thesis by (simp add: countable_item_def)
  next
    case JNull
    with i show ?thesis
      by (auto simp: count_item_def category_of_def incr_def split: option.splits)
  next
    case (JBool x)
    with i show ?thesis
      by (auto simp: count_item_def category_of_def incr_def split: option.splits)
  next
    case (JNum x)
    with i show ?thesis
      by (auto simp: count_item_def category_of_def incr_def split: option.splits)
  qed
qed

lemma stats_loop_counts:
  assumes "list_all countable_item items"
  shows "stats_loop items [(''Plant'', a), (''Seed'', b), (''Tool'', c), (''Other'', e)] =
     Inr [(''Plant'', a + count_where (\<lambda>i. category_of i = JStr ''Plant'') items),
          (''Seed'', b + count_where (\<lambda>i. category_of i = JStr ''Seed'') items),
          (''Tool'', c + count_where (\<lambda>i. category_of i = JStr ''Tool'') items),
          (''Other'', e + count_where (\<lambda>i. category_of i \<noteq> JStr ''Plant'' \<and> category_of i \<noteq> JStr ''Seed''
                               \<and> category_of i \<noteq> JStr ''Tool'') items)]"
  using assms
proof (induction items arbitrary: a b c e)
  case Nil
  show ?case by (simp add: count_where_def)
next
  case (Cons i items)
  then have ci: "countable_item i" and rest: "list_all countable_item items" by simp_all
  show ?case
    unfolding stats_loop.simps count_item_countable[OF ci] sum.case Cons.IH[OF rest]
    by (simp add: count_where_def)
qed

text \<open>
  Where the file is absent, and where it holds a number (the test for the key raises
  and the \<open>except\<close> branch runs), \<open>_ensure_db\<close> writes the store with the
  administrator.
\<close>

lemma ensure_db_absent:
  "ensure_db H \<lparr>contents = Absent, writable = True\<rparr> =
     (Inr (), \<lparr>contents = Parsed (JDict [(''users'', JDict [(''admin'', new_user (H ''admin''))])]),
               writable = True\<rparr>)"
  by (simp add: ensure_db_def register_user_def load_def save_def empty_store_def)

lemma ensure_db_scalar:
  "ensure_db H \<lparr>contents = Parsed (JNum n), writable = True\<rparr> =
     (Inr (), \<lparr>contents = Parsed (JDict [(''users'', JDict [(''admin'', new_user (H ''admin''))])]),
               writable = True\<rparr>)
   \<and> verify_user H ''admin'' ''admin'' (snd (ensure_db H \<lparr>contents = Parsed (JNum n), writable = True\<rparr>))
       = Inr True"
  by (simp add: ensure_db_def register_user_def verify_user_def load_def save_def empty_store_def
      new_user_def)

text \<open>
  Claim C1. On a store file that exists and cannot be parsed, \<open>_ensure_db\<close> returns
  without writing: \<open>_load\<close> has already turned the parse failure into the empty store,
  so the \<open>except\<close> branch that resets the file and registers \<open>admin\<close> is not reached. The
  file stays unparseable, the store read from it has no user, and \<open>admin\<close> with the
  password \<open>admin\<close> does not verify.
\<close>

theorem ensure_db_unparseable:
  "ensure_db H \<lparr>contents = Unparseable, writable = w\<rparr> = (Inr (), \<lparr>contents = Unparseable, writable = w\<rparr>)
   \<and> users_of \<lparr>contents = Unparseable, writable = w\<rparr> = Some []
   \<and> verify_user H ''admin'' ''admin'' (snd (ensure_db H \<lparr>contents = Unparseable, writable = w\<rparr>)) = Inr False"
  by (simp add: ensure_db_def load_def empty_store_def users_of_def verify_user_def)

text \<open>
  Claim C9 as the specification states it fails at a legacy document with the keys
  \<open>admin\<close> and \<open>bob\<close>: the document is not put under an \<open>admin\<close> entry of the users
  mapping, it becomes the users mapping itself, with both of its keys as users.
\<close>

theorem legacy_wrap_counterexample:
  "ensure_db demo_digest \<lparr>contents = Parsed legacy_doc, writable = True\<rparr>
     = (Inr (), \<lparr>contents = Parsed (JDict [(''users'', legacy_doc)]), writable = True\<rparr>)
   \<and> JDict [(''users'', legacy_doc)] \<noteq> spec_wrap_legacy legacy_doc
   \<and> users_of \<lparr>contents = Parsed (JDict [(''users'', legacy_doc)]), writable = True\<rparr>
       = Some [(''admin'', new_user ''8c6976e5''), (''bob'', new_user ''81b637d8'')]"
  by (simp add: ensure_db_def load_def save_def legacy_doc_def spec_wrap_legacy_def users_of_def)

text \<open>
  Claim C9, amended. When the store file holds a JSON object without the key \<open>users\<close>
  and can be written, \<open>_ensure_db\<close> replaces it: by the object itself as the value of
  the top-level key \<open>users\<close> when the object has the key \<open>admin\<close>, and by the empty
  users mapping otherwise.
\<close>

theorem ensure_db_repair:
  assumes "contents d = Parsed (JDict kvs)" and "''users'' \<notin> fst ` set kvs" and "writable d"
  shows "ensure_db H d =
           (Inr (), d\<lparr>contents := Parsed (JDict [(''users'',
                        if ''admin'' \<in> fst ` set kvs then JDict kvs else JDict [])])\<rparr>)"
  using assms by (simp add: ensure_db_def load_def save_def empty_store_def)

text \<open>The repair at a legacy document, and at a document without \<open>admin\<close>.\<close>

theorem ensure_db_repair_witness:
  "ensure_db demo_digest \<lparr>contents = Parsed legacy_doc, writable = True\<rparr>
     = (Inr (), \<lparr>contents = Parsed (JDict [(''users'', legacy_doc)]), writable = True\<rparr>)
   \<and> ensure_db demo_digest \<lparr>contents = Parsed (JDict bob_only_doc), writable = True\<rparr>
     = (Inr (), \<lparr>contents = Parsed (JDict [(''users'', JDict [])]), writable = True\<rparr>)"
proof -
  let ?l = "[(''admin'', new_user ''8c6976e5''), (''bob'', new_user ''81b637d8'')]"
  have 1: "contents \<lparr>contents = Parsed legacy_doc, writable = True\<rparr> = Parsed (JDict ?l)"
    by (simp add: legacy_doc_def)
  have 2: "''users'' \<notin> fst ` set ?l" by simp
  have 3: "writable \<lparr>contents = Parsed legacy_doc, writable = True\<rparr>" by simp
  have 4: "contents \<lparr>contents = Parsed (JDict bob_only_doc), writable = True\<rparr> = Parsed (JDict bob_only_doc)"
    by simp
  have 5: "''users'' \<notin> fst ` set bob_only_doc" by (simp add: bob_only_doc_def)
  have 6: "writable \<lparr>contents = Parsed (JDict bob_only_doc), writable = True\<rparr>" by simp
  from ensure_db_repair[OF 1 2 3, of demo_digest] ensure_db_repair[OF 4 5 6, of demo_digest]
  show ?thesis by (simp add: legacy_doc_def bob_only_doc_def)
qed

text \<open>
  Claim C5. On a store with a users mapping, registering a name the mapping has returns
  \<open>(False, "Username taken")\<close> and leaves the file as it was. Registering a new name
  on a writable file returns \<open>(True, "Success")\<close>; the file then holds the users
  mapping with one entry added for the name, whose record is the digest of the password
  under \<open>password\<close>, the empty list under \<open>history\<close> and the empty list under
  \<open>inventory\<close>; that entry is the only one for the name, and a later registration of
  the name with any password is refused and changes nothing.
\<close>

theorem register_user_unique:
  assumes "users_of d = Some us"
  shows "(u \<in> fst ` set us \<longrightarrow> register_user H u p d = (Inr (False, ''Username taken''), d))
       \<and> (u \<notin> fst ` set us \<and> writable d \<longrightarrow>
            (\<exists>d'. register_user H u p d = (Inr (True, ''Success''), d')
                 \<and> (\<exists>kvs. contents d' = Parsed (JDict kvs)
                        \<and> map_of kvs ''users'' =
                            Some (JDict (us @ [(u, JDict [(''password'', JStr (H p)),
                                                         (''history'', JList []),
                                                         (''inventory'', JList [])])])))
                 \<and> users_of d' =
                     Some (us @ [(u, JDict [(''password'', JStr (H p)), (''history'', JList []),
                                           (''inventory'', JList [])])])
                 \<and> filter (\<lambda>e. fst e = u)
                       (us @ [(u, JDict [(''password'', JStr (H p)), (''history'', JList []),
                                        (''inventory'', JList [])])])
                     = [(u, JDict [(''password'', JStr (H p)), (''history'', JList []),
                                   (''inventory'', JList [])])]
                 \<and> register_user H u q d' = (Inr (False, ''Username taken''), d')))"
proof (intro conjI impI)
  assume "u \<in> fst ` set us"
  with assms show "register_user H u p d = (Inr (False, ''Username taken''), d)"
    by (rule register_user_taken)
next
  assume a: "u \<notin> fst ` set us \<and> writable d"
  from assms obtain kvs where l: "load d = JDict kvs" and "map_of kvs ''users'' = Some (JDict us)"
    by (rule users_ofD)
  let ?r = "JDict [(''password'', JStr (H p)), (''history'', JList []), (''inventory'', JList [])]"
  let ?us' = "us @ [(u, ?r)]"
  let ?kvs' = "AList.update ''users'' (JDict ?us') kvs"
  let ?d' = "save (JDict ?kvs') d"
  have r: "register_user H u p d = (Inr (True, ''Success''), ?d')"
    using assms a l by (simp add: register_user_new new_user_def)
  have c: "contents ?d' = Parsed (JDict ?kvs')"
    using a by (simp add: save_def)
  have m: "map_of ?kvs' ''users'' = Some (JDict ?us')"
    by (simp add: update_conv')
  have uo: "users_of ?d' = Some ?us'"
    using a by (simp add: users_of_def load_def save_def update_conv')
  have f: "filter (\<lambda>e. fst e = u) ?us' = [(u, ?r)]"
    using a filter_new[of u us ?r] by blast
  have "u \<in> fst ` set ?us'" by simp
  with uo have t: "register_user H u q ?d' = (Inr (False, ''Username taken''), ?d')"
    by (rule register_user_taken)
  from r c m uo f t
  show "\<exists>d'. register_user H u p d = (Inr (True, ''Success''), d')
                 \<and> (\<exists>kvs. contents d' = Parsed (JDict kvs)
                        \<and> map_of kvs ''users'' =
                            Some (JDict (us @ [(u, JDict [(''password'', JStr (H p)),
                                                         (''history'', JList []),
                                                         (''inventory'', JList [])])])))
                 \<and> users_of d' =
                     Some (us @ [(u, JDict [(''password'', JStr (H p)), (''history'', JList []),
                                           (''inventory'', JList [])])])
                 \<and> filter (\<lambda>e. fst e = u)
                       (us @ [(u, JDict [(''password'', JStr (H p)), (''history'', JList []),
                                        (''inventory'', JList [])])])
                     = [(u, JDict [(''password'', JStr (H p)), (''history'', JList []),
                                   (''inventory'', JList [])])]
                 \<and> register_user H u q d' = (Inr (False, ''Username taken''), d')"
    by blast
qed

text \<open>
  Registering \<open>alice\<close> with the password \<open>x\<close> on the empty store, then again with \<open>y\<close>:
  the file holds one record for \<open>alice\<close>, with the digest of \<open>x\<close>.
\<close>

theorem register_user_unique_witness:
  "users_of fresh_disk = Some []
   \<and> register_user demo_digest ''alice'' ''x'' fresh_disk =
       (Inr (True, ''Success''),
        \<lparr>contents = Parsed (JDict [(''users'', JDict [(''alice'',
            JDict [(''password'', JStr ''sha256:x''), (''history'', JList []),
                   (''inventory'', JList [])])])]),
         writable = True\<rparr>)
   \<and> register_user demo_digest ''alice'' ''y''
        \<lparr>contents = Parsed (JDict [(''users'', JDict [(''alice'',
            JDict [(''password'', JStr ''sha256:x''), (''history'', JList []),
                   (''inventory'', JList [])])])]),
         writable = True\<rparr> =
       (Inr (False, ''Username taken''),
        \<lparr>contents = Parsed (JDict [(''users'', JDict [(''alice'',
            JDict [(''password'', JStr ''sha256:x''), (''history'', JList []),
                   (''inventory'', JList [])])])]),
         writable = True\<rparr>)"
proof -
  let ?r = "JDict [(''password'', JStr ''sha256:x''), (''history'', JList []), (''inventory'', JList [])]"
  let ?d1 = "\<lparr>contents = Parsed (JDict [(''users'', JDict [(''alice'', ?r)])]), writable = True\<rparr>"
  have h: "users_of fresh_disk = Some []"
    by (simp add: users_of_def fresh_disk_def load_def empty_store_def)
  have w: "''alice'' \<notin> fst ` set ([] :: (string \<times> json) list) \<and> writable fresh_disk"
    by (simp add: fresh_disk_def)
  from register_user_unique[OF h, of "''alice''" demo_digest "''x''" "''y''"] w
  obtain d' kvs where r: "register_user demo_digest ''alice'' ''x'' fresh_disk = (Inr (True, ''Success''), d')"
    and c: "contents d' = Parsed (JDict kvs)"
    and m: "map_of kvs ''users'' = Some (JDict ([] @ [(''alice'',
              JDict [(''password'', JStr (demo_digest ''x'')), (''history'', JList []),
                     (''inventory'', JList [])])]))"
    and t: "register_user demo_digest ''alice'' ''y'' d' = (Inr (False, ''Username taken''), d')"
    by blast
  have e: "register_user demo_digest ''alice'' ''x'' fresh_disk = (Inr (True, ''Success''), ?d1)"
    by (simp add: register_user_def fresh_disk_def load_def save_def empty_store_def
        demo_digest_def new_user_def)
  with r have "d' = ?d1" by simp
  with t e h show ?thesis by simp
qed

text \<open>
  Claim C6. For every name and password, \<open>verify_user\<close> returns true exactly when the
  users mapping has a record for the name whose stored password is the digest of the
  supplied one. It returns false for a name the mapping does not have, and for a record
  whose stored password is another value. After registering a new name on a writable
  file, the pair just registered verifies, and a password with a different digest does
  not.
\<close>

theorem verify_user_iff:
  "(verify_user H u p d = Inr True \<longleftrightarrow>
      (\<exists>us r. users_of d = Some us \<and> map_of us u = Some (JDict r)
              \<and> map_of r ''password'' = Some (JStr (H p))))
   \<and> (\<forall>us. users_of d = Some us \<and> u \<notin> fst ` set us \<longrightarrow> verify_user H u p d = Inr False)
   \<and> (\<forall>us r pw. users_of d = Some us \<and> map_of us u = Some (JDict r)
          \<and> map_of r ''password'' = Some pw \<and> pw \<noteq> JStr (H p) \<longrightarrow> verify_user H u p d = Inr False)
   \<and> (\<forall>us. users_of d = Some us \<and> u \<notin> fst ` set us \<and> writable d \<longrightarrow>
          verify_user H u p (snd (register_user H u p d)) = Inr True
          \<and> (\<forall>p'. H p' \<noteq> H p \<longrightarrow> verify_user H u p' (snd (register_user H u p d)) = Inr False))"
proof (intro conjI allI impI)
  show "verify_user H u p d = Inr True \<longleftrightarrow>
      (\<exists>us r. users_of d = Some us \<and> map_of us u = Some (JDict r)
              \<and> map_of r ''password'' = Some (JStr (H p)))"
  proof
    assume "verify_user H u p d = Inr True"
    then show "\<exists>us r. users_of d = Some us \<and> map_of us u = Some (JDict r)
              \<and> map_of r ''password'' = Some (JStr (H p))"
      by (rule verify_user_TrueD)
  next
    assume "\<exists>us r. users_of d = Some us \<and> map_of us u = Some (JDict r)
              \<and> map_of r ''password'' = Some (JStr (H p))"
    then obtain us r where "users_of d = Some us" "map_of us u = Some (JDict r)"
      "map_of r ''password'' = Some (JStr (H p))" by blast
    then show "verify_user H u p d = Inr True"
      by (simp add: verify_user_known)
  qed
next
  fix us assume "users_of d = Some us \<and> u \<notin> fst ` set us"
  then show "verify_user H u p d = Inr False"
    by (simp add: verify_user_unknown)
next
  fix us r pw
  assume "users_of d = Some us \<and> map_of us u = Some (JDict r)
          \<and> map_of r ''password'' = Some pw \<and> pw \<noteq> JStr (H p)"
  then show "verify_user H u p d = Inr False"
    by (simp add: verify_user_known)
next
  fix us assume a: "users_of d = Some us \<and> u \<notin> fst ` set us \<and> writable d"
  then obtain kvs where l: "load d = JDict kvs"
    by (auto elim: users_ofD)
  let ?us' = "us @ [(u, new_user (H p))]"
  let ?d' = "save (JDict (AList.update ''users'' (JDict ?us') kvs)) d"
  have r: "snd (register_user H u p d) = ?d'"
    using a l by (simp add: register_user_new)
  have uo: "users_of ?d' = Some ?us'"
    using a by (simp add: users_of_save update_conv')
  have mu: "map_of ?us' u = Some (JDict [(''password'', JStr (H p)), (''history'', JList []), (''inventory'', JList [])])"
    using a map_of_append_new[of u us "new_user (H p)"] by (simp add: new_user_def)
  show "verify_user H u p (snd (register_user H u p d)) = Inr True"
    unfolding r using verify_user_known[OF uo mu, of "JStr (H p)" H p] by simp
  show "\<And>p'. H p' \<noteq> H p \<Longrightarrow> verify_user H u p' (snd (register_user H u p d)) = Inr False"
    unfolding r using verify_user_known[OF uo mu, of "JStr (H p)" H] by simp
qed

text \<open>
  The pair registered on the empty store verifies, a wrong password and an unknown name
  do not; the same on a store that already has the user.
\<close>

theorem verify_user_iff_witness:
  "verify_user demo_digest ''alice'' ''x'' (snd (register_user demo_digest ''alice'' ''x'' fresh_disk)) = Inr True
   \<and> verify_user demo_digest ''alice'' ''wrong'' (snd (register_user demo_digest ''alice'' ''x'' fresh_disk)) = Inr False
   \<and> verify_user demo_digest ''nobody'' ''x'' (snd (register_user demo_digest ''alice'' ''x'' fresh_disk)) = Inr False
   \<and> verify_user demo_digest ''alice'' ''x'' alice_disk = Inr True
   \<and> verify_user demo_digest ''alice'' ''wrong'' alice_disk = Inr False"
proof -
  have h: "users_of fresh_disk = Some [] \<and> ''alice'' \<notin> fst ` set ([] :: (string \<times> json) list) \<and> writable fresh_disk"
    by (simp add: users_of_def fresh_disk_def load_def empty_store_def)
  have ne: "demo_digest ''wrong'' \<noteq> demo_digest ''x''"
    by (simp add: demo_digest_def)
  let ?d = "snd (register_user demo_digest ''alice'' ''x'' fresh_disk)"
  from verify_user_iff[of demo_digest "''alice''" "''x''" fresh_disk] h ne
  have 1: "verify_user demo_digest ''alice'' ''x'' ?d = Inr True"
    and 2: "verify_user demo_digest ''alice'' ''wrong'' ?d = Inr False"
    by blast+
  have d: "?d = \<lparr>contents = Parsed (JDict [(''users'', JDict [(''alice'', new_user ''sha256:x'')])]), writable = True\<rparr>"
    by (simp add: register_user_def fresh_disk_def load_def save_def empty_store_def demo_digest_def)
  have u: "users_of ?d = Some [(''alice'', new_user ''sha256:x'')] 
      \<and> ''nobody'' \<notin> fst ` set [(''alice'', new_user ''sha256:x'')]"
    unfolding d by (simp add: users_of_def load_def)
  from verify_user_iff[of demo_digest "''nobody''" "''x''" ?d] u
  have 3: "verify_user demo_digest ''nobody'' ''x'' ?d = Inr False"
    by blast
  have a: "users_of alice_disk = Some [(''alice'',
          JDict [(''password'', JStr ''sha256:x''), (''history'', JList []),
                 (''inventory'', JList [rose_item])])]"
    by (simp add: users_of_def alice_disk_def load_def)
  have 4: "verify_user demo_digest ''alice'' ''x'' alice_disk = Inr True"
    using verify_user_iff[of demo_digest "''alice''" "''x''" alice_disk] a
    by (simp add: demo_digest_def)
  have 5: "verify_user demo_digest ''alice'' ''wrong'' alice_disk = Inr False"
  proof -
    have "users_of alice_disk = Some [(''alice'',
          JDict [(''password'', JStr ''sha256:x''), (''history'', JList []),
                 (''inventory'', JList [rose_item])])]
        \<and> map_of [(''alice'',
          JDict [(''password'', JStr ''sha256:x''), (''history'', JList []),
                 (''inventory'', JList [rose_item])])] ''alice'' = Some (JDict [(''password'', JStr ''sha256:x''), (''history'', JList []),
                 (''inventory'', JList [rose_item])])
        \<and> map_of [(''password'', JStr ''sha256:x''), (''history'', JList []),
                 (''inventory'', JList [rose_item])] ''password'' = Some (JStr ''sha256:x'')
        \<and> JStr ''sha256:x'' \<noteq> JStr (demo_digest ''wrong'')"
      using a by (simp add: demo_digest_def)
    with verify_user_iff[of demo_digest "''alice''" "''wrong''" alice_disk]
    show ?thesis by blast
  qed
  from 1 2 3 4 5 show ?thesis by blast
qed

text \<open>
  Claim C7. For a user whose record has an inventory list, on a writable file,
  \<open>add_item\<close> followed by \<open>get_inventory\<close> gives the list whose first element has the
  name, category, quantity and notes passed, the first eight characters of the
  identifier drawn and the current date, followed by the items stored before.
\<close>

theorem add_item_roundtrip:
  assumes "users_of d = Some us" and "map_of us user = Some (JDict r)"
    and "map_of r ''inventory'' = Some (JList items)" and "writable d"
  shows "\<exists>d'. add_item uid today user name category qty notes d = (Inr (), d')
            \<and> get_inventory user d' =
                Inr (JList (JDict [(''id'', JStr (take 8 uid)), (''name'', name),
                                   (''category'', category), (''qty'', qty), (''notes'', notes),
                                   (''date'', JStr today)] # items))"
proof -
  from assms(1) obtain kvs where l: "load d = JDict kvs" and mk: "map_of kvs ''users'' = Some (JDict us)"
    by (rule users_ofD)
  let ?item = "new_item uid today name category qty notes"
  let ?r' = "AList.update ''inventory'' (JList (?item # items)) r"
  let ?us' = "AList.update user (JDict ?r') us"
  let ?d' = "save (JDict (AList.update ''users'' (JDict ?us') kvs)) d"
  from assms(2) have "user \<in> fst ` set us" by (simp add: in_keys_iff)
  with l mk assms(2,3) have a: "add_item uid today user name category qty notes d = (Inr (), ?d')"
    by (simp add: add_item_def)
  have uo: "users_of ?d' = Some ?us'"
    using assms(4) by (simp add: users_of_save update_conv')
  have m1: "map_of ?us' user = Some (JDict ?r')"
    by (simp add: update_conv')
  have m2: "map_of ?r' ''inventory'' = Some (JList (?item # items))"
    by (simp add: update_conv')
  have "get_inventory user ?d' = Inr (JList (?item # items))"
    using uo m1 m2 by (rule get_inventory_known)
  with a show ?thesis by (simp add: new_item_def)
qed

text \<open>Adding an item for \<open>alice\<close>, who has one item already.\<close>

theorem add_item_roundtrip_witness:
  "get_inventory ''alice'' alice_disk = Inr (JList [rose_item])
   \<and> fst (add_item ''6f1d2a9c-0b7e-4c55-9d3e-2a1b4c5d6e7f'' ''2024-05-01'' ''alice''
             (JStr ''Urea'') (JStr ''Fertilizer'') (JStr ''2'') (JStr ''bag'') alice_disk) = Inr ()
   \<and> get_inventory ''alice''
       (snd (add_item ''6f1d2a9c-0b7e-4c55-9d3e-2a1b4c5d6e7f'' ''2024-05-01'' ''alice''
               (JStr ''Urea'') (JStr ''Fertilizer'') (JStr ''2'') (JStr ''bag'') alice_disk))
       = Inr (JList [JDict [(''id'', JStr ''6f1d2a9c''), (''name'', JStr ''Urea''),
                            (''category'', JStr ''Fertilizer''), (''qty'', JStr ''2''),
                            (''notes'', JStr ''bag''), (''date'', JStr ''2024-05-01'')],
                     rose_item])"
proof -
  have a: "users_of alice_disk = Some [(''alice'',
          JDict [(''password'', JStr ''sha256:x''), (''history'', JList []),
                 (''inventory'', JList [rose_item])])]"
    by (simp add: users_of_def alice_disk_def load_def)
  have b: "map_of [(''alice'',
          JDict [(''password'', JStr ''sha256:x''), (''history'', JList []),
                 (''inventory'', JList [rose_item])])] ''alice''
        = Some (JDict [(''password'', JStr ''sha256:x''), (''history'', JList []),
                 (''inventory'', JList [rose_item])])"
    by simp
  have c: "map_of [(''password'', JStr ''sha256:x''), (''history'', JList []),
                 (''inventory'', JList [rose_item])] ''inventory'' = Some (JList [rose_item])"
    by simp
  have w: "writable alice_disk" by (simp add: alice_disk_def)
  have g: "get_inventory ''alice'' alice_disk = Inr (JList [rose_item])"
    by (simp add: get_inventory_def alice_disk_def load_def)
  from add_item_roundtrip[OF a b c w, of "''6f1d2a9c-0b7e-4c55-9d3e-2a1b4c5d6e7f''" "''2024-05-01''"
         "JStr ''Urea''" "JStr ''Fertilizer''" "JStr ''2''" "JStr ''bag''"] g
  show ?thesis by auto
qed

text \<open>
  Claim C8. For an inventory list of items that are dictionaries with a scalar category,
  \<open>get_stats\<close> returns the counts for exactly the keys Plant, Seed, Tool and Other, in
  that order: each of the first three counts the items of that category, and Other
  counts every item whose category is none of the three (an item without a category is
  read as Other).
\<close>

theorem get_stats_counts:
  assumes "get_inventory user d = Inr (JList items)" and "list_all countable_item items"
  shows "get_stats user d =
     Inr [(''Plant'', count_where (\<lambda>i. category_of i = JStr ''Plant'') items),
          (''Seed'', count_where (\<lambda>i. category_of i = JStr ''Seed'') items),
          (''Tool'', count_where (\<lambda>i. category_of i = JStr ''Tool'') items),
          (''Other'', count_where (\<lambda>i. category_of i \<noteq> JStr ''Plant'' \<and> category_of i \<noteq> JStr ''Seed''
                               \<and> category_of i \<noteq> JStr ''Tool'') items)]"
  using stats_loop_counts[OF assms(2), of 0 0 0 0] assms(1)
  by (simp add: get_stats_def stats0_def)

text \<open>
  One item of each of Plant, Seed, Tool and Fertilizer: every count is one, the
  Fertilizer item under Other.
\<close>

theorem get_stats_counts_witness:
  "get_inventory ''alice'' four_items_disk
     = Inr (JList [item_in ''Plant'', item_in ''Seed'', item_in ''Tool'', item_in ''Fertilizer''])
   \<and> get_stats ''alice'' four_items_disk
     = Inr [(''Plant'', 1), (''Seed'', 1), (''Tool'', 1), (''Other'', 1)]"
proof -
  let ?items = "[item_in ''Plant'', item_in ''Seed'', item_in ''Tool'', item_in ''Fertilizer'']"
  have g: "get_inventory ''alice'' four_items_disk = Inr (JList ?items)"
    by (simp add: get_inventory_def four_items_disk_def load_def)
  have c: "list_all countable_item ?items"
    by (simp add: countable_item_def category_of_def item_in_def new_item_def)
  from get_stats_counts[OF g c] g show ?thesis
    by (simp add: count_where_def category_of_def item_in_def new_item_def)
qed

end
